theory Spec2Isabelle
  imports Main
begin

section \<open>Data model\<close>

text \<open>
  The bulk job runner lives in two near-identical React providers:
  \<^verbatim>\<open>src/contexts/BulkJobContext.tsx\<close> (bulk e-mail send) and the track-event provider
  (bulk audience tracking). Both keep a map \<^verbatim>\<open>jobs\<close> from account id to a job record
  and a map \<^verbatim>\<open>controllers\<close> from account id to a mutable token object
  \<^verbatim>\<open>{ isPaused, isStopped }\<close>.

  Strings are lists of code units; only code units up to 255 are represented.
  Counters are natural numbers, \<^verbatim>\<open>delay\<close> and \<^verbatim>\<open>countdown\<close> are integers (the pages
  store \<^verbatim>\<open>parseInt(..) || 0\<close>, which may be negative).
\<close>

datatype status = Idle | Processing | Paused | Completed | Stopped | Waiting

datatype result_status = Success | Error

text \<open>A JSON value; the \<^verbatim>\<open>response\<close> field of a result holds the value whose
  \<^verbatim>\<open>JSON.stringify(v, null, 2)\<close> text the source stores.\<close>

datatype json =
    JNull
  | JBool bool
  | JNum int
  | JStr string
  | JArr "json list"
  | JObj "(string \<times> json) list"

record SendResult =
  id_r :: nat
  email :: string
  status_r :: result_status
  response :: json

record progress =
  current :: nat
  total :: nat

record stats =
  success :: nat
  fail :: nat

text \<open>The fields shared by \<^verbatim>\<open>JobState\<close> and \<^verbatim>\<open>TrackJobState\<close>.\<close>

record JobCommon =
  emailList :: string
  delay :: int
  status :: status
  progress :: progress
  results :: "SendResult list"
  stats :: stats
  elapsedSeconds :: nat
  countdown :: int

record JobState = JobCommon +
  subject :: string
  content :: string
  fromEmail :: string
  fromName :: string

record TrackJobState = JobCommon +
  eventName :: string
  eventData :: string

definition defaultJobState :: JobState where
  "defaultJobState =
     \<lparr> emailList = '''', delay = 1, status = Idle,
       progress = \<lparr> current = 0, total = 0 \<rparr>, results = [],
       stats = \<lparr> success = 0, fail = 0 \<rparr>, elapsedSeconds = 0, countdown = 0,
       subject = '''', content = '''', fromEmail = '''', fromName = '''' \<rparr>"

definition defaultTrackJobState :: TrackJobState where
  "defaultTrackJobState =
     \<lparr> emailList = '''', delay = 1, status = Idle,
       progress = \<lparr> current = 0, total = 0 \<rparr>, results = [],
       stats = \<lparr> success = 0, fail = 0 \<rparr>, elapsedSeconds = 0, countdown = 0,
       eventName = '''', eventData = ''{}'' \<rparr>"

text \<open>The token object \<^verbatim>\<open>{ isPaused, isStopped }\<close>. Tokens are heap objects: a run-loop
  keeps a reference to the one it read at the top of the current iteration, while
  \<^verbatim>\<open>controllers.current[accountId]\<close> may meanwhile point to a newer one.\<close>

record ctrl =
  isPaused :: bool
  isStopped :: bool

text \<open>What the provider does to the outside: toasts, the body of each \<^verbatim>\<open>fetch\<close>, the
  timers it awaits, and an exception thrown inside a state updater.\<close>

datatype toast_kind = TError | TSuccess | TInfo

datatype request =
    SendEmail string string string string string string
  | TrackEvent string string string json bool

datatype effect =
    Toast toast_kind string
  | Fetch request
  | Timer string nat
  | Uncaught string

text \<open>What a run-loop captured from the job when it started: the payload fields it reads
  later through its closure (\<^verbatim>\<open>job\<close>, the stale \<^verbatim>\<open>getJob\<close>, \<^verbatim>\<open>parsedData\<close>).\<close>

datatype captured =
    SendJob string string string string
  | TrackJob string json

text \<open>The points at which a run-loop is suspended in an \<^verbatim>\<open>await\<close>.\<close>

datatype pc =
    PauseWait
  | CountdownPauseWait
  | CountdownSleep
  | Fetching
  | Done

record run =
  acc :: string
  emails :: "string list"
  job_delay :: int
  job :: captured
  i :: nat
  ctrl :: "nat option"
  remaining :: int
  pc :: pc

record 'j world =
  jobs :: "string \<rightharpoonup> 'j"
  controllers :: "string \<rightharpoonup> nat"
  heap :: "nat \<Rightarrow> ctrl"
  next_ref :: nat
  log :: "effect list"
  runs :: "run list"

text \<open>What an awaited \<^verbatim>\<open>fetch\<close> followed by \<^verbatim>\<open>response.json()\<close> can produce: an exception
  with its \<^verbatim>\<open>message\<close> (empty when there is none), or \<^verbatim>\<open>response.ok\<close> and the parsed
  body.\<close>

datatype fetch_outcome = Threw string | Responded bool json

section \<open>Parsing the recipient text\<close>

text \<open>\<^verbatim>\<open>String.prototype.split('\n')\<close>: the empty string gives one empty piece.\<close>

fun js_split :: "char \<Rightarrow> string \<Rightarrow> string list" where
  "js_split sep [] = [[]]"
| "js_split sep (c # cs) =
     (if c = sep then [] # js_split sep cs
      else (case js_split sep cs of
              [] \<Rightarrow> [[c]]
            | l # ls \<Rightarrow> (c # l) # ls))"

text \<open>\<^verbatim>\<open>String.prototype.trim\<close> strips white space and line terminators at both ends:
  TAB, LF, VT, FF, CR, SP and NBSP among the code units up to 255.\<close>

definition js_whitespace :: "char \<Rightarrow> bool" where
  "js_whitespace c =
     (c \<in> set [CHR 0x09, CHR 0x0A, CHR 0x0B, CHR 0x0C, CHR 0x0D, CHR 0x20, CHR 0xA0])"

definition trim :: "string \<Rightarrow> string" where
  "trim s = rev (dropWhile js_whitespace (rev (dropWhile js_whitespace s)))"

definition parse_emails :: "string \<Rightarrow> string list" where
  "parse_emails s = filter (\<lambda>e. length e > 0) (map trim (js_split CHR 0x0A s))"

section \<open>The providers\<close>

text \<open>The two providers run the same code up to these constants: the default job
  record, the texts of their toasts, and one statement of the loop: at the check
  just before the \<^verbatim>\<open>fetch\<close>, the bulk-send loop writes status \<^verbatim>\<open>stopped\<close> before it
  breaks (lines 184-187), the track-event loop only breaks (line 182).\<close>

record 'j provider =
  defaultState :: 'j
  startedMsg :: string
  pausedMsg :: string
  resumedMsg :: string
  completedMsg :: string
  stopWritesBeforeFetch :: bool

definition BulkJobProvider :: "JobState provider" where
  "BulkJobProvider =
     \<lparr> defaultState = defaultJobState, startedMsg = ''Job Started'',
       pausedMsg = ''Job Paused'', resumedMsg = ''Job Resumed'',
       completedMsg = ''Job Completed'', stopWritesBeforeFetch = True \<rparr>"

definition TrackEventProvider :: "TrackJobState provider" where
  "TrackEventProvider =
     \<lparr> defaultState = defaultTrackJobState, startedMsg = ''Tracking Started'',
       pausedMsg = ''Tracking Paused'', resumedMsg = ''Tracking Resumed'',
       completedMsg = ''Tracking Completed'', stopWritesBeforeFetch = False \<rparr>"

section \<open>The job state store\<close>

definition add_log :: "effect \<Rightarrow> 'j world \<Rightarrow> 'j world" where
  "add_log e w = w\<lparr>log := log w @ [e]\<rparr>"

definition getJob :: "'j provider \<Rightarrow> 'j world \<Rightarrow> string \<Rightarrow> 'j" where
  "getJob P w a = (case jobs w a of None \<Rightarrow> defaultState P | Some j \<Rightarrow> j)"

text \<open>\<^verbatim>\<open>updateJobData(accountId, data)\<close>: the partial record \<^verbatim>\<open>data\<close> is the function that
  overwrites the fields it lists.\<close>

definition updateJobData ::
  "'j provider \<Rightarrow> string \<Rightarrow> ('j \<Rightarrow> 'j) \<Rightarrow> 'j world \<Rightarrow> 'j world" where
  "updateJobData P a dat w = w\<lparr>jobs := (jobs w)(a \<mapsto> dat (getJob P w a))\<rparr>"

text \<open>The interval of \<^verbatim>\<open>useEffect\<close>, fired once a second.\<close>

definition tick :: "('z JobCommon_scheme) world \<Rightarrow> ('z JobCommon_scheme) world" where
  "tick w =
     w\<lparr>jobs := (\<lambda>accId.
          map_option
            (\<lambda>j. if status j = Processing \<or> status j = Waiting
                  then j\<lparr>elapsedSeconds := elapsedSeconds j + 1\<rparr> else j)
            (jobs w accId))\<rparr>"

section \<open>Pause, resume, stop\<close>

definition pauseJob ::
  "('z JobCommon_scheme) provider \<Rightarrow> string \<Rightarrow> ('z JobCommon_scheme) world
     \<Rightarrow> ('z JobCommon_scheme) world" where
  "pauseJob P a w =
     (case controllers w a of
        None \<Rightarrow> w
      | Some p \<Rightarrow>
          add_log (Toast TInfo (pausedMsg P))
            (updateJobData P a (\<lambda>j. j\<lparr>status := Paused\<rparr>)
               (w\<lparr>heap := (heap w)(p := (heap w p)\<lparr>isPaused := True\<rparr>)\<rparr>)))"

definition resumeJob ::
  "('z JobCommon_scheme) provider \<Rightarrow> string \<Rightarrow> ('z JobCommon_scheme) world
     \<Rightarrow> ('z JobCommon_scheme) world" where
  "resumeJob P a w =
     (case controllers w a of
        None \<Rightarrow> w
      | Some p \<Rightarrow>
          add_log (Toast TInfo (resumedMsg P))
            (updateJobData P a (\<lambda>j. j\<lparr>status := Processing\<rparr>)
               (w\<lparr>heap := (heap w)(p := (heap w p)\<lparr>isPaused := False\<rparr>)\<rparr>)))"

definition stopJob ::
  "('z JobCommon_scheme) provider \<Rightarrow> string \<Rightarrow> ('z JobCommon_scheme) world
     \<Rightarrow> ('z JobCommon_scheme) world" where
  "stopJob P a w =
     (case controllers w a of
        None \<Rightarrow> w
      | Some p \<Rightarrow>
          updateJobData P a (\<lambda>j. j\<lparr>status := Stopped\<rparr>)
            (w\<lparr>heap := (heap w)(p := (heap w p)\<lparr>isStopped := True, isPaused := False\<rparr>)\<rparr>))"

section \<open>The run-loop\<close>

text \<open>\<^verbatim>\<open>ctrl?.isStopped\<close> and \<^verbatim>\<open>ctrl?.isPaused\<close>.\<close>

definition stopped_q :: "'j world \<Rightarrow> nat option \<Rightarrow> bool" where
  "stopped_q w c = (case c of None \<Rightarrow> False | Some p \<Rightarrow> isStopped (heap w p))"

definition paused_q :: "'j world \<Rightarrow> nat option \<Rightarrow> bool" where
  "paused_q w c = (case c of None \<Rightarrow> False | Some p \<Rightarrow> isPaused (heap w p))"

text \<open>The body of the request of line 193 (bulk send) and of the track-event loop.\<close>

definition request_of :: "run \<Rightarrow> request" where
  "request_of r =
     (case job r of
        SendJob sub con fe fn \<Rightarrow> SendEmail (acc r) (emails r ! i r) sub con fe fn
      | TrackJob ev dat \<Rightarrow> TrackEvent (acc r) ev (emails r ! i r) dat True)"

text \<open>Each of the following runs the loop from one program point to the next
  \<^verbatim>\<open>await\<close>, or to the end of \<^verbatim>\<open>startJob\<close>. After the loop (lines 253-256).\<close>

definition finish ::
  "('z JobCommon_scheme) provider \<Rightarrow> ('z JobCommon_scheme) world \<Rightarrow> run
     \<Rightarrow> ('z JobCommon_scheme) world \<times> run" where
  "finish P w r =
     ((if \<not> stopped_q w (controllers w (acc r))
       then add_log (Toast TSuccess (completedMsg P))
              (updateJobData P (acc r) (\<lambda>j. j\<lparr>status := Completed\<rparr>) w)
       else w),
      r\<lparr>pc := Done\<rparr>)"

text \<open>Lines 184-204: the last stop check, then the \<^verbatim>\<open>fetch\<close> is issued and awaited.\<close>

definition before_fetch ::
  "('z JobCommon_scheme) provider \<Rightarrow> ('z JobCommon_scheme) world \<Rightarrow> run
     \<Rightarrow> ('z JobCommon_scheme) world \<times> run" where
  "before_fetch P w r =
     (if stopped_q w (ctrl r)
      then finish P
             (if stopWritesBeforeFetch P
              then updateJobData P (acc r) (\<lambda>j. j\<lparr>status := Stopped\<rparr>) w else w) r
      else (add_log (Fetch (request_of r)) w, r\<lparr>pc := Fetching\<rparr>))"

text \<open>Line 181, after the countdown loop.\<close>

definition after_countdown ::
  "('z JobCommon_scheme) provider \<Rightarrow> ('z JobCommon_scheme) world \<Rightarrow> run
     \<Rightarrow> ('z JobCommon_scheme) world \<times> run" where
  "after_countdown P w r =
     before_fetch P
       (updateJobData P (acc r) (\<lambda>j. j\<lparr>status := Processing, countdown := 0\<rparr>) w) r"

text \<open>Lines 172-177: the pause loop inside the countdown, polled every 500 ms, then
  the one-second sleep.\<close>

definition countdown_pause ::
  "('z JobCommon_scheme) world \<Rightarrow> run \<Rightarrow> ('z JobCommon_scheme) world \<times> run" where
  "countdown_pause w r =
     (if paused_q w (ctrl r) \<and> \<not> stopped_q w (ctrl r)
      then (add_log (Timer (acc r) 500) w, r\<lparr>pc := CountdownPauseWait\<rparr>)
      else (add_log (Timer (acc r) 1000) w, r\<lparr>pc := CountdownSleep\<rparr>))"

text \<open>Lines 170-171: the head of the countdown loop.\<close>

definition countdown_loop ::
  "('z JobCommon_scheme) provider \<Rightarrow> ('z JobCommon_scheme) world \<Rightarrow> run
     \<Rightarrow> ('z JobCommon_scheme) world \<times> run" where
  "countdown_loop P w r =
     (if remaining r > 0
      then (if stopped_q w (ctrl r) then after_countdown P w r else countdown_pause w r)
      else after_countdown P w r)"

text \<open>Lines 164-168: the stop check after the pause loop and the entry of the delay
  phase.\<close>

definition after_pause ::
  "('z JobCommon_scheme) provider \<Rightarrow> ('z JobCommon_scheme) world \<Rightarrow> run
     \<Rightarrow> ('z JobCommon_scheme) world \<times> run" where
  "after_pause P w r =
     (if stopped_q w (ctrl r) then finish P w r
      else if i r > 0 \<and> job_delay r > 0
      then countdown_loop P
             (updateJobData P (acc r)
                (\<lambda>j. j\<lparr>status := Waiting, countdown := job_delay r\<rparr>) w)
             (r\<lparr>remaining := job_delay r\<rparr>)
      else before_fetch P w r)"

text \<open>Lines 160-163: the pause loop, polled every 500 ms.\<close>

definition pause_loop ::
  "('z JobCommon_scheme) provider \<Rightarrow> ('z JobCommon_scheme) world \<Rightarrow> run
     \<Rightarrow> ('z JobCommon_scheme) world \<times> run" where
  "pause_loop P w r =
     (if paused_q w (ctrl r) \<and> \<not> stopped_q w (ctrl r)
      then (add_log (Timer (acc r) 500) w, r\<lparr>pc := PauseWait\<rparr>)
      else after_pause P w r)"

text \<open>Lines 152-158: the loop condition, the token read of this iteration and the
  first stop check.\<close>

definition loop_top ::
  "('z JobCommon_scheme) provider \<Rightarrow> ('z JobCommon_scheme) world \<Rightarrow> run
     \<Rightarrow> ('z JobCommon_scheme) world \<times> run" where
  "loop_top P w r =
     (if i r < length (emails r)
      then (if stopped_q w (controllers w (acc r))
            then finish P (updateJobData P (acc r) (\<lambda>j. j\<lparr>status := Stopped\<rparr>) w)
                   (r\<lparr>ctrl := controllers w (acc r)\<rparr>)
            else pause_loop P w (r\<lparr>ctrl := controllers w (acc r)\<rparr>))
      else finish P w r)"

text \<open>Lines 206-250: the outcome of the awaited call is recorded by a functional
  update of \<^verbatim>\<open>prev[accountId]\<close>; a missing record makes the updater throw. The e-mail
  is \<^verbatim>\<open>emails[i]\<close>, read while \<^verbatim>\<open>i < emails.length\<close>.\<close>

definition record_outcome ::
  "fetch_outcome \<Rightarrow> ('z JobCommon_scheme) world \<Rightarrow> run \<Rightarrow> ('z JobCommon_scheme) world" where
  "record_outcome out w r =
     (case jobs w (acc r) of
        None \<Rightarrow> add_log (Uncaught ''TypeError'') w
      | Some currentJob \<Rightarrow>
          (case out of
             Responded ok resultData \<Rightarrow>
               w\<lparr>jobs := (jobs w)(acc r \<mapsto>
                    currentJob\<lparr>
                      stats :=
                        (if ok
                         then (stats currentJob)\<lparr>success := success (stats currentJob) + 1\<rparr>
                         else (stats currentJob)\<lparr>fail := fail (stats currentJob) + 1\<rparr>),
                      progress := (progress currentJob)\<lparr>current := i r + 1\<rparr>,
                      results :=
                        \<lparr> id_r = i r + 1, email = emails r ! i r,
                          status_r = (if ok then Success else Error),
                          response = resultData \<rparr> # results currentJob\<rparr>)\<rparr>
           | Threw msg \<Rightarrow>
               w\<lparr>jobs := (jobs w)(acc r \<mapsto>
                    currentJob\<lparr>
                      stats := (stats currentJob)\<lparr>fail := fail (stats currentJob) + 1\<rparr>,
                      progress := (progress currentJob)\<lparr>current := i r + 1\<rparr>,
                      results :=
                        \<lparr> id_r = i r + 1, email = emails r ! i r, status_r = Error,
                          response =
                            JObj [(''error'',
                                   JStr (if msg = [] then ''Network Error'' else msg))] \<rparr>
                        # results currentJob\<rparr>)\<rparr>))"

text \<open>A suspended run-loop continues when its timer fires or its call returns.\<close>

definition resume_run ::
  "('z JobCommon_scheme) provider \<Rightarrow> fetch_outcome \<Rightarrow> ('z JobCommon_scheme) world \<Rightarrow> run
     \<Rightarrow> ('z JobCommon_scheme) world \<times> run" where
  "resume_run P out w r =
     (case pc r of
        PauseWait \<Rightarrow> pause_loop P w r
      | CountdownPauseWait \<Rightarrow> countdown_pause w r
      | CountdownSleep \<Rightarrow>
          countdown_loop P
            (updateJobData P (acc r) (\<lambda>j. j\<lparr>countdown := remaining r - 1\<rparr>) w)
            (r\<lparr>remaining := remaining r - 1\<rparr>)
      | Fetching \<Rightarrow> loop_top P (record_outcome out w r) (r\<lparr>i := i r + 1\<rparr>)
      | Done \<Rightarrow> (w, r))"

section \<open>Starting a job\<close>

text \<open>Lines 139-150 and the loop up to its first \<^verbatim>\<open>await\<close>: what \<^verbatim>\<open>startJob\<close> does
  once the inputs are validated.\<close>

definition begin_run ::
  "('z JobCommon_scheme) provider \<Rightarrow> string \<Rightarrow> string list \<Rightarrow> int \<Rightarrow> captured
     \<Rightarrow> ('z JobCommon_scheme) world \<Rightarrow> ('z JobCommon_scheme) world" where
  "begin_run P a es dly cap w =
     (let p = next_ref w;
          w1 = w\<lparr>heap := (heap w)(p := \<lparr> isPaused = False, isStopped = False \<rparr>),
                 next_ref := p + 1,
                 controllers := (controllers w)(a \<mapsto> p)\<rparr>;
          w2 = updateJobData P a
                 (\<lambda>j. j\<lparr>status := Processing, results := [],
                         stats := \<lparr> success = 0, fail = 0 \<rparr>,
                         progress := \<lparr> current = 0, total = length es \<rparr>,
                         elapsedSeconds := 0, countdown := 0\<rparr>) w1;
          w3 = add_log (Toast TSuccess (startedMsg P)) w2;
          r = \<lparr> acc = a, emails = es, job_delay = dly, job = cap, i = 0,
                ctrl = None, remaining = 0, pc = Done \<rparr>;
          (w4, r') = loop_top P w3 r
      in w4\<lparr>runs := runs w4 @ [r']\<rparr>)"

text \<open>\<^verbatim>\<open>startJob\<close> of the bulk-send provider. Its parameter \<^verbatim>\<open>accountData\<close> is not used
  by the body and is left out. The job is read with \<^verbatim>\<open>getJob\<close>, that is from the state
  the component has last rendered; the model reads the store as it is at the call.\<close>

definition startJob :: "string \<Rightarrow> JobState world \<Rightarrow> JobState world" where
  "startJob a w =
     (let job = getJob BulkJobProvider w a;
          emails = parse_emails (emailList job)
      in if length emails = 0 then add_log (Toast TError ''No emails found'') w
         else if subject job = [] \<or> content job = []
         then add_log (Toast TError ''Missing subject or content'') w
         else begin_run BulkJobProvider a emails (delay job)
                (SendJob (subject job) (content job) (fromEmail job) (fromName job)) w)"

text \<open>\<^verbatim>\<open>startJob\<close> of the track-event provider. \<^verbatim>\<open>JSON.parse\<close> is the parameter
  \<open>parse\<close>: \<open>None\<close> when it throws.\<close>

definition startJob_track ::
  "(string \<Rightarrow> json option) \<Rightarrow> string \<Rightarrow> TrackJobState world \<Rightarrow> TrackJobState world" where
  "startJob_track parse a w =
     (let job = getJob TrackEventProvider w a;
          emails = parse_emails (emailList job)
      in if length emails = 0 then add_log (Toast TError ''No emails found'') w
         else if eventName job = []
         then add_log (Toast TError ''Event Name is required'') w
         else (case parse (if eventData job = [] then ''{}'' else eventData job) of
                 None \<Rightarrow> add_log (Toast TError ''Invalid JSON in Event Data'') w
               | Some parsedData \<Rightarrow>
                   begin_run TrackEventProvider a emails (delay job)
                     (TrackJob (eventName job) parsedData) w))"

section \<open>The system: operator commands, the ticker and the wake-ups\<close>

text \<open>Execution is single-threaded: between two \<^verbatim>\<open>await\<close>s a run-loop is not
  interleaved with anything. An event is one uninterrupted piece of execution. The
  updates queued with \<^verbatim>\<open>setJobs\<close> are applied in the order they were issued; the model
  applies each one at once. An event is an operator command, a tick of the interval, an
  edit of the job by \<^verbatim>\<open>updateJobData\<close>, or the wake-up of the \<open>k\<close>-th run-loop: its
  timer fires, or its call returns with the given outcome.\<close>

definition wake ::
  "('z JobCommon_scheme) provider \<Rightarrow> nat \<Rightarrow> fetch_outcome \<Rightarrow> ('z JobCommon_scheme) world
     \<Rightarrow> ('z JobCommon_scheme) world" where
  "wake P k out w =
     (if k < length (runs w)
      then (case resume_run P out w (runs w ! k) of
              (w', r') \<Rightarrow> w'\<lparr>runs := (runs w')[k := r']\<rparr>)
      else w)"

datatype 'j event =
    EStart string
  | EPause string
  | EResume string
  | EStop string
  | ETick
  | EWake nat fetch_outcome
  | EEdit string "'j \<Rightarrow> 'j"

definition step ::
  "('z JobCommon_scheme) provider
     \<Rightarrow> (string \<Rightarrow> ('z JobCommon_scheme) world \<Rightarrow> ('z JobCommon_scheme) world)
     \<Rightarrow> ('z JobCommon_scheme) event \<Rightarrow> ('z JobCommon_scheme) world
     \<Rightarrow> ('z JobCommon_scheme) world" where
  "step P start ev w =
     (case ev of
        EStart a \<Rightarrow> start a w
      | EPause a \<Rightarrow> pauseJob P a w
      | EResume a \<Rightarrow> resumeJob P a w
      | EStop a \<Rightarrow> stopJob P a w
      | ETick \<Rightarrow> tick w
      | EWake k out \<Rightarrow> wake P k out w
      | EEdit a f \<Rightarrow> updateJobData P a f w)"

fun exec ::
  "('z JobCommon_scheme) provider
     \<Rightarrow> (string \<Rightarrow> ('z JobCommon_scheme) world \<Rightarrow> ('z JobCommon_scheme) world)
     \<Rightarrow> ('z JobCommon_scheme) event list \<Rightarrow> ('z JobCommon_scheme) world
     \<Rightarrow> ('z JobCommon_scheme) world" where
  "exec P start [] w = w"
| "exec P start (ev # evs) w = exec P start evs (step P start ev w)"

definition init :: "'j world" where
  "init = \<lparr> jobs = Map.empty, controllers = Map.empty,
            heap = (\<lambda>_. \<lparr> isPaused = False, isStopped = False \<rparr>), next_ref = 0,
            log = [], runs = [] \<rparr>"

section \<open>Notions used to state the properties\<close>

text \<open>The run-loop that \<^verbatim>\<open>startJob\<close> leaves suspended in its first \<^verbatim>\<open>fetch\<close>.\<close>

definition fresh_run :: "string \<Rightarrow> string list \<Rightarrow> int \<Rightarrow> captured \<Rightarrow> nat \<Rightarrow> run" where
  "fresh_run a es dly cap p =
     \<lparr> acc = a, emails = es, job_delay = dly, job = cap, i = 0,
       ctrl = Some p, remaining = 0, pc = Fetching \<rparr>"

text \<open>\<^verbatim>\<open>lines.join('\n')\<close>: the text an operator enters, one line per recipient.\<close>

fun join_lines :: "string list \<Rightarrow> string" where
  "join_lines [] = []"
| "join_lines [l] = l"
| "join_lines (l # l' # ls) = l @ CHR 0x0A # join_lines (l' # ls)"

text \<open>The job record as \<^verbatim>\<open>startJob\<close> resets it for \<open>n\<close> recipients.\<close>

definition reset_ok :: "'z JobCommon_scheme \<Rightarrow> nat \<Rightarrow> bool" where
  "reset_ok j n =
     (results j = [] \<and> stats j = \<lparr> success = 0, fail = 0 \<rparr>
      \<and> progress j = \<lparr> current = 0, total = n \<rparr>
      \<and> elapsedSeconds j = 0 \<and> countdown j = 0 \<and> status j = Processing)"

text \<open>The example of the specification: five entries, one of them a lone newline, joined
  with newlines.\<close>

definition example_text :: string where
  "example_text = join_lines [''a@x.com'', '''', '' b@x.com '', [CHR 0x0A], ''c@x.com'']"

text \<open>What a piece of a run-loop leaves alone: the tokens and their map, the other
  run-loops, the job records of other accounts, and what the loop captured at its
  start.\<close>

definition frame ::
  "('z JobCommon_scheme) world \<Rightarrow> run \<Rightarrow> ('z JobCommon_scheme) world \<times> run \<Rightarrow> bool" where
  "frame w r x =
     (controllers (fst x) = controllers w \<and> heap (fst x) = heap w
      \<and> next_ref (fst x) = next_ref w \<and> runs (fst x) = runs w
      \<and> (\<forall>b. b \<noteq> acc r \<longrightarrow> jobs (fst x) b = jobs w b)
      \<and> acc (snd x) = acc r \<and> emails (snd x) = emails r
      \<and> job_delay (snd x) = job_delay r \<and> job (snd x) = job r)"

text \<open>The object \<^verbatim>\<open>{ error: error.message || "Network Error" }\<close> of
  the catch branch.\<close>

definition synthesized_error :: "string \<Rightarrow> json" where
  "synthesized_error msg = JObj [(''error'', JStr (if msg = [] then ''Network Error'' else msg))]"


text \<open>A call fails by an exception or by a response that is not ok.\<close>

definition is_failure :: "fetch_outcome \<Rightarrow> bool" where
  "is_failure out = (case out of Threw msg \<Rightarrow> True | Responded ok body \<Rightarrow> \<not> ok)"

text \<open>Two job records agree on stats, progress and results.\<close>

definition same_counts :: "'z JobCommon_scheme \<Rightarrow> 'z JobCommon_scheme \<Rightarrow> bool" where
  "same_counts j j' =
     (stats j' = stats j \<and> progress j' = progress j \<and> results j' = results j)"

text \<open>A piece of a run-loop that writes at most status and countdown.\<close>

definition keeps_counts ::
  "('z JobCommon_scheme) world \<Rightarrow> run \<Rightarrow> ('z JobCommon_scheme) world \<times> run \<Rightarrow> bool" where
  "keeps_counts w r x =
     (\<forall>j. jobs w (acc r) = Some j \<longrightarrow>
        (\<exists>j'. jobs (fst x) (acc r) = Some j' \<and> same_counts j j'))"


text \<open>An account whose run has completed: the token of the run is still registered.\<close>

definition finished_world :: "'z JobCommon_scheme \<Rightarrow> ('z JobCommon_scheme) world" where
  "finished_world d =
     init\<lparr>jobs := [''acct'' \<mapsto> d\<lparr>status := Completed\<rparr>],
          controllers := [''acct'' \<mapsto> 0], next_ref := 1\<rparr>"

text \<open>Two recipients with delay 3; the first call has returned and the delay phase has
  begun.\<close>

definition in_countdown :: "JobState event list" where
  "in_countdown =
     [EEdit ''acct'' (\<lambda>j. j\<lparr>emailList := join_lines [''a@x.com'', ''b@x.com''],
                              subject := ''Hi'', content := ''Hello'', delay := 3\<rparr>),
      EStart ''acct'',
      EWake 0 (Responded True (JObj []))]"

text \<open>The fields of the job of an account, when it has one.\<close>

definition countdown_of :: "('z JobCommon_scheme) world \<Rightarrow> string \<Rightarrow> int option" where
  "countdown_of w a = map_option countdown (jobs w a)"

definition status_of :: "('z JobCommon_scheme) world \<Rightarrow> string \<Rightarrow> status option" where
  "status_of w a = map_option status (jobs w a)"

text \<open>The operator pauses during the first second of the delay; then that second ends.\<close>

definition paused_in_sleep :: "JobState world" where
  "paused_in_sleep = exec BulkJobProvider startJob (in_countdown @ [EPause ''acct'']) init"

definition paused_in_poll :: "JobState world" where
  "paused_in_poll =
     exec BulkJobProvider startJob
       (in_countdown @ [EPause ''acct'', EWake 0 (Responded True (JObj []))]) init"

text \<open>\<^verbatim>\<open>startJob\<close> is called again while the first call of the
  first run-loop is pending; then the call of the first loop returns, then that of the
  second.\<close>

definition restart_during_call :: "JobState event list" where
  "restart_during_call =
     [EEdit ''acct'' (\<lambda>j. j\<lparr>emailList := join_lines [''a@x.com'', ''b@x.com''],
                              subject := ''Hi'', content := ''Hello'', delay := 0\<rparr>),
      EStart ''acct'',
      EStart ''acct'',
      EWake 0 (Responded True (JObj [])),
      EWake 1 (Responded True (JObj []))]"

definition results_of :: "('z JobCommon_scheme) world \<Rightarrow> string \<Rightarrow> SendResult list" where
  "results_of w a = (case jobs w a of None \<Rightarrow> [] | Some j \<Rightarrow> results j)"

text \<open>Status and response as \<^verbatim>\<open>record_outcome\<close> stores them.\<close>

definition outcome_status :: "fetch_outcome \<Rightarrow> result_status" where
  "outcome_status out = (if is_failure out then Error else Success)"

definition outcome_body :: "fetch_outcome \<Rightarrow> json" where
  "outcome_body out = (case out of Threw msg \<Rightarrow> synthesized_error msg | Responded ok body \<Rightarrow> body)"

text \<open>The state before the second start: one run-loop, its first call pending.\<close>

definition call_pending :: "JobState world" where
  "call_pending = exec BulkJobProvider startJob (take 2 restart_during_call) init"


text \<open>The requests issued so far, in order.\<close>

definition fetches :: "'j world \<Rightarrow> request list" where
  "fetches w = concat (map (\<lambda>e. case e of Fetch q \<Rightarrow> [q] | _ \<Rightarrow> []) (log w))"

definition counts_of ::
  "('z JobCommon_scheme) world \<Rightarrow> string \<Rightarrow> (stats \<times> progress \<times> SendResult list) option" where
  "counts_of w a = map_option (\<lambda>j. (stats j, progress j, results j)) (jobs w a)"


text \<open>The track-event provider, stopped in the delay phase before the second recipient;
  then the loop wakes.\<close>

definition track_in_countdown :: "TrackJobState event list" where
  "track_in_countdown =
     [EEdit ''acct'' (\<lambda>j. j\<lparr>emailList := join_lines [''a@x.com'', ''b@x.com''],
                              eventName := ''signup'', delay := 3\<rparr>),
      EStart ''acct'',
      EWake 0 (Responded True (JObj [])),
      EStop ''acct'',
      EWake 0 (Responded True (JObj []))]"





text \<open>The sum of the timers awaited, in milliseconds. The timers of one run-loop are
  awaited one after the other and \<^verbatim>\<open>setTimeout\<close> never fires
  early, so the loop has run for at least that long.\<close>

definition slept_ms :: "effect list \<Rightarrow> nat" where
  "slept_ms es = sum_list (map (\<lambda>e. case e of Timer a ms \<Rightarrow> ms | _ \<Rightarrow> 0) es)"



text \<open>The counters of a job agree.\<close>

definition job_ok :: "'z JobCommon_scheme \<Rightarrow> bool" where
  "job_ok j =
     (success (stats j) + fail (stats j) = current (progress j)
      \<and> current (progress j) = length (results j)
      \<and> current (progress j) \<le> total (progress j))"

text \<open>A job record and the live run-loop of its account: the loop is at recipient
  \<open>i\<close>, \<open>i\<close> outcomes are recorded, and the countdown is nonzero
  exactly in the delay phase of the loop, where it is the number of seconds the loop
  has left.\<close>

definition run_fits :: "'z JobCommon_scheme \<Rightarrow> run \<Rightarrow> bool" where
  "run_fits j r =
     (current (progress j) = i r \<and> i r < length (emails r)
      \<and> total (progress j) = length (emails r)
      \<and> status j \<noteq> Idle \<and> status j \<noteq> Completed
      \<and> (countdown j \<noteq> 0 \<longrightarrow> pc r = CountdownSleep \<or> pc r = CountdownPauseWait)
      \<and> (pc r = CountdownSleep \<or> pc r = CountdownPauseWait \<longrightarrow>
           countdown j = remaining r \<and> 0 < remaining r))"

text \<open>The state of an account after its run-loop has run to its next
  \<^verbatim>\<open>await\<close> or to its end.\<close>

definition settled ::
  "('z JobCommon_scheme) world \<Rightarrow> string \<Rightarrow> ('z JobCommon_scheme) world \<times> run \<Rightarrow> bool" where
  "settled w a x =
     (\<exists>j'. jobs (fst x) a = Some j' \<and> job_ok j'
        \<and> (if pc (snd x) = Done then countdown j' = 0 else run_fits j' (snd x)))"

text \<open>The run-loops of an account that have not ended.\<close>

definition live_of :: "string \<Rightarrow> run \<Rightarrow> bool" where
  "live_of a r = (acc r = a \<and> pc r \<noteq> Done)"

definition live_runs :: "'j world \<Rightarrow> string \<Rightarrow> run list" where
  "live_runs w a = filter (live_of a) (runs w)"

text \<open>The invariant of an account: no live run-loop and a job with agreeing counters and
  countdown 0, or exactly one live run-loop that fits the job.\<close>

definition acct_inv :: "('z JobCommon_scheme) world \<Rightarrow> string \<Rightarrow> bool" where
  "acct_inv w a =
     ((live_runs w a = [] \<and> (\<forall>j. jobs w a = Some j \<longrightarrow> job_ok j \<and> countdown j = 0))
      \<or> (\<exists>r j. live_runs w a = [r] \<and> jobs w a = Some j \<and> job_ok j \<and> run_fits j r))"

definition sys_inv :: "('z JobCommon_scheme) world \<Rightarrow> bool" where
  "sys_inv w = (\<forall>a. acct_inv w a)"

text \<open>An edit by the pages: \<^verbatim>\<open>updateJobData\<close> with input fields
  only.\<close>

definition input_edit :: "('z JobCommon_scheme \<Rightarrow> 'z JobCommon_scheme) \<Rightarrow> bool" where
  "input_edit f =
     (\<forall>j. status (f j) = status j \<and> progress (f j) = progress j \<and> results (f j) = results j
          \<and> stats (f j) = stats j \<and> countdown (f j) = countdown j)"

text \<open>The regime of one run-loop per account: a job is started only when no earlier
  run-loop of the account is alive, and edits are input edits.\<close>

fun allowed :: "('z JobCommon_scheme) event \<Rightarrow> ('z JobCommon_scheme) world \<Rightarrow> bool" where
  "allowed (EStart a) w = (live_runs w a = [])"
| "allowed (EEdit a f) w = input_edit f"
| "allowed (EPause a) w = True"
| "allowed (EResume a) w = True"
| "allowed (EStop a) w = True"
| "allowed ETick w = True"
| "allowed (EWake k out) w = True"

fun valid_trace ::
  "('z JobCommon_scheme) provider
     \<Rightarrow> (string \<Rightarrow> ('z JobCommon_scheme) world \<Rightarrow> ('z JobCommon_scheme) world)
     \<Rightarrow> ('z JobCommon_scheme) event list \<Rightarrow> ('z JobCommon_scheme) world \<Rightarrow> bool" where
  "valid_trace P start [] w = True"
| "valid_trace P start (ev # evs) w =
     (allowed ev w \<and> valid_trace P start evs (step P start ev w))"

text \<open>What the invariant needs of a provider: the default record has agreeing counters and
  countdown 0, and its start function either only notifies or begins a run for a
  non-empty recipient list.\<close>

definition default_ok :: "('z JobCommon_scheme) provider \<Rightarrow> bool" where
  "default_ok P = (job_ok (defaultState P) \<and> countdown (defaultState P) = 0)"

definition start_like ::
  "('z JobCommon_scheme) provider
     \<Rightarrow> (string \<Rightarrow> ('z JobCommon_scheme) world \<Rightarrow> ('z JobCommon_scheme) world) \<Rightarrow> bool" where
  "start_like P start =
     (\<forall>a w. (\<exists>e. start a w = add_log e w)
           \<or> (\<exists>es d cap. es \<noteq> [] \<and> start a w = begin_run P a es d cap w))"


text \<open>A pause, resume or stop command for the account.\<close>

fun command_for :: "string \<Rightarrow> 'j event \<Rightarrow> bool" where
  "command_for a (EPause b) = (b = a)"
| "command_for a (EResume b) = (b = a)"
| "command_for a (EStop b) = (b = a)"
| "command_for a (EStart b) = False"
| "command_for a ETick = False"
| "command_for a (EWake k out) = False"
| "command_for a (EEdit b f) = False"

text \<open>A sequence of events without a pause, resume or stop command for the account.\<close>

fun calm :: "string \<Rightarrow> 'j event list \<Rightarrow> bool" where
  "calm a [] = True"
| "calm a (ev # evs) = (\<not> command_for a ev \<and> calm a evs)"

text \<open>The job of the account, if it has one, shows a nonzero countdown only with status
  waiting.\<close>

definition waiting_ok :: "('z JobCommon_scheme) world \<Rightarrow> string \<Rightarrow> bool" where
  "waiting_ok w a = (\<forall>j. jobs w a = Some j \<longrightarrow> countdown j \<noteq> 0 \<longrightarrow> status j = Waiting)"

text \<open>A job of one recipient is started; the recipient text is edited to two recipients
  and the job is started again while the first call is pending. The call of the second
  loop returns and its delay phase begins; then the call of the first loop returns and
  that loop ends.\<close>

definition restart_in_call :: "JobState event list" where
  "restart_in_call =
     [EEdit ''acct'' (\<lambda>j. j\<lparr>emailList := ''a@x.com'', subject := ''Hi'',
                              content := ''Hello'', delay := 3\<rparr>),
      EStart ''acct'',
      EEdit ''acct'' (\<lambda>j. j\<lparr>emailList := join_lines [''a@x.com'', ''b@x.com'']\<rparr>),
      EStart ''acct'',
      EWake 1 (Responded True (JObj [])),
      EWake 0 (Responded True (JObj []))]"

text \<open>\<^verbatim>\<open>updateJobData\<close> called with a countdown.\<close>

definition countdown_written :: "JobState event list" where
  "countdown_written = [EEdit ''acct'' (\<lambda>j. j\<lparr>countdown := 5\<rparr>)]"

section \<open>Frame lemmas\<close>

lemmas loop_defs = finish_def before_fetch_def after_countdown_def countdown_pause_def
  countdown_loop_def after_pause_def pause_loop_def loop_top_def resume_run_def

lemma updateJobData_frame [simp]:
  "controllers (updateJobData P a f w) = controllers w"
  "heap (updateJobData P a f w) = heap w"
  "next_ref (updateJobData P a f w) = next_ref w"
  "log (updateJobData P a f w) = log w"
  "runs (updateJobData P a f w) = runs w"
  by (simp_all add: updateJobData_def)

lemma add_log_frame [simp]:
  "controllers (add_log e w) = controllers w"
  "heap (add_log e w) = heap w"
  "next_ref (add_log e w) = next_ref w"
  "jobs (add_log e w) = jobs w"
  "runs (add_log e w) = runs w"
  "log (add_log e w) = log w @ [e]"
  by (simp_all add: add_log_def)

lemma record_outcome_frame [simp]:
  "controllers (record_outcome out w r) = controllers w"
  "heap (record_outcome out w r) = heap w"
  "next_ref (record_outcome out w r) = next_ref w"
  "runs (record_outcome out w r) = runs w"
  by (simp_all add: record_outcome_def split: option.splits fetch_outcome.splits)

lemma stopped_q_frame [simp]:
  "stopped_q (updateJobData P a f w) c = stopped_q w c"
  "stopped_q (add_log e w) c = stopped_q w c"
  "stopped_q (record_outcome out w r) c = stopped_q w c"
  by (simp_all add: stopped_q_def split: option.splits)

lemma paused_q_frame [simp]:
  "paused_q (updateJobData P a f w) c = paused_q w c"
  "paused_q (add_log e w) c = paused_q w c"
  "paused_q (record_outcome out w r) c = paused_q w c"
  by (simp_all add: paused_q_def split: option.splits)

lemma resume_run_frame:
  assumes "resume_run P out w r = (w', r')"
  shows "controllers w' = controllers w \<and> heap w' = heap w \<and> next_ref w' = next_ref w
         \<and> runs w' = runs w \<and> acc r' = acc r \<and> emails r' = emails r
         \<and> job_delay r' = job_delay r \<and> job r' = job r"
  using assms
  by (auto simp: loop_defs split: pc.splits if_splits)

section \<open>Starting a job\<close>

lemma begin_run_eq:
  assumes "es \<noteq> []"
  shows "begin_run P a es dly cap w =
     w\<lparr>jobs := (jobs w)(a \<mapsto>
            (getJob P w a)\<lparr>status := Processing, results := [],
               stats := \<lparr> success = 0, fail = 0 \<rparr>,
               progress := \<lparr> current = 0, total = length es \<rparr>,
               elapsedSeconds := 0, countdown := 0\<rparr>),
        controllers := (controllers w)(a \<mapsto> next_ref w),
        heap := (heap w)(next_ref w := \<lparr> isPaused = False, isStopped = False \<rparr>),
        next_ref := next_ref w + 1,
        log := log w @ [Toast TSuccess (startedMsg P),
                 Fetch (request_of (fresh_run a es dly cap (next_ref w)))],
        runs := runs w @ [fresh_run a es dly cap (next_ref w)]\<rparr>"
  using assms
  by (simp add: begin_run_def Let_def loop_top_def pause_loop_def after_pause_def
      before_fetch_def stopped_q_def paused_q_def updateJobData_def add_log_def getJob_def
      fresh_run_def request_of_def split: captured.splits)

lemma js_split_no_sep: "sep \<notin> set l \<Longrightarrow> js_split sep l = [l]"
  by (induction l) auto

lemma js_split_append_sep:
  "sep \<notin> set l \<Longrightarrow> js_split sep (l @ sep # t) = l # js_split sep t"
  by (induction l) auto

lemma js_split_join_lines:
  "ls \<noteq> [] \<Longrightarrow> \<forall>l\<in>set ls. CHR 0x0A \<notin> set l \<Longrightarrow> js_split CHR 0x0A (join_lines ls) = ls"
  by (induction ls rule: join_lines.induct) (auto simp: js_split_no_sep js_split_append_sep)

lemma parse_emails_join_lines:
  "ls \<noteq> [] \<Longrightarrow> \<forall>l\<in>set ls. CHR 0x0A \<notin> set l \<Longrightarrow>
   parse_emails (join_lines ls) = filter (\<lambda>e. e \<noteq> []) (map trim ls)"
  by (simp add: parse_emails_def js_split_join_lines)

text \<open>
  C2. The recipient text is split at newlines, every line is trimmed, empty lines are
  dropped and the order is kept: for lines \<open>ls\<close> joined with newlines the parsed list is
  the non-empty ones among \<open>map trim ls\<close>. When that list is not empty and the payload
  passes validation, \<^verbatim>\<open>startJob\<close> of either provider leaves the job record with empty
  results, stats \<open>{0, 0}\<close>, progress \<open>{0, number of parsed recipients}\<close>, elapsed seconds
  and countdown 0 and status processing.
\<close>

theorem startJob_parses_and_resets:
  assumes "ls \<noteq> []" and "\<forall>l\<in>set ls. CHR 0x0A \<notin> set l"
    and "es = filter (\<lambda>e. e \<noteq> []) (map trim ls)" and "es \<noteq> []"
  shows "parse_emails (join_lines ls) = es
    \<and> (emailList (getJob BulkJobProvider w a) = join_lines ls
         \<and> subject (getJob BulkJobProvider w a) \<noteq> []
         \<and> content (getJob BulkJobProvider w a) \<noteq> []
       \<longrightarrow> (\<exists>j. jobs (startJob a w) a = Some j \<and> reset_ok j (length es)))
    \<and> (emailList (getJob TrackEventProvider v a) = join_lines ls
         \<and> eventName (getJob TrackEventProvider v a) \<noteq> []
         \<and> parse (if eventData (getJob TrackEventProvider v a) = [] then ''{}''
                   else eventData (getJob TrackEventProvider v a)) \<noteq> None
       \<longrightarrow> (\<exists>j. jobs (startJob_track parse a v) a = Some j \<and> reset_ok j (length es)))"
proof -
  have p: "parse_emails (join_lines ls) = es"
    using assms by (simp add: parse_emails_join_lines)
  show ?thesis
    using p assms(4)
    by (auto simp: startJob_def startJob_track_def Let_def begin_run_eq reset_ok_def)
qed

text \<open>The example of the specification: five entries, one of them a lone newline,
  give three recipients and \<open>progress.total = 3\<close>.\<close>

theorem startJob_parses_and_resets_witness:
  "parse_emails example_text = [''a@x.com'', ''b@x.com'', ''c@x.com'']
   \<and> (\<exists>j. jobs (startJob ''acct''
               (init\<lparr>jobs := [''acct'' \<mapsto> defaultJobState\<lparr>emailList := example_text,
                     subject := ''Hi'', content := ''<p>x</p>''\<rparr>]\<rparr>)) ''acct'' = Some j
            \<and> reset_ok j 3)
   \<and> (\<exists>j. jobs (startJob_track (\<lambda>s. Some (JObj [])) ''acct''
               (init\<lparr>jobs := [''acct'' \<mapsto> defaultTrackJobState\<lparr>emailList := example_text,
                     eventName := ''signup''\<rparr>]\<rparr>)) ''acct'' = Some j
            \<and> reset_ok j 3)"
  using startJob_parses_and_resets [of "[''a@x.com'', '''', '' b@x.com '', '''', '''', ''c@x.com'']"
      "[''a@x.com'', ''b@x.com'', ''c@x.com'']"
      "init\<lparr>jobs := [''acct'' \<mapsto> defaultJobState\<lparr>emailList := example_text,
                     subject := ''Hi'', content := ''<p>x</p>''\<rparr>]\<rparr>"
      "''acct''"
      "init\<lparr>jobs := [''acct'' \<mapsto> defaultTrackJobState\<lparr>emailList := example_text,
                     eventName := ''signup''\<rparr>]\<rparr>"
      "\<lambda>s. Some (JObj [])"]
  by (simp add: example_text_def trim_def js_whitespace_def getJob_def defaultJobState_def
      defaultTrackJobState_def numeral_3_eq_3)

text \<open>
  C3. When validation fails, \<^verbatim>\<open>startJob\<close> returns at once: the world after the call is
  the world before it with one error toast appended to the effects. The job records, the
  tokens and their map, the counters and the run-loops are those of before, and no
  \<^verbatim>\<open>fetch\<close> was issued. Validation fails for the bulk-send provider when no recipient is
  parsed or the subject or the content is empty, for the track-event provider when no
  recipient is parsed, the event name is empty, or the event data (\<^verbatim>\<open>'{}'\<close> in place of
  an empty text) does not parse.
\<close>

theorem startJob_invalid_leaves_state:
  "(parse_emails (emailList (getJob BulkJobProvider w a)) = []
      \<or> subject (getJob BulkJobProvider w a) = []
      \<or> content (getJob BulkJobProvider w a) = []
    \<longrightarrow> (\<exists>msg. startJob a w = w\<lparr>log := log w @ [Toast TError msg]\<rparr>))
   \<and> (parse_emails (emailList (getJob TrackEventProvider v a)) = []
      \<or> eventName (getJob TrackEventProvider v a) = []
      \<or> parse (if eventData (getJob TrackEventProvider v a) = [] then ''{}''
                else eventData (getJob TrackEventProvider v a)) = None
    \<longrightarrow> (\<exists>msg. startJob_track parse a v = v\<lparr>log := log v @ [Toast TError msg]\<rparr>))"
  by (auto simp: startJob_def startJob_track_def Let_def add_log_def)

text \<open>
  A start on an account that has no job yet: the default record has no recipients.
\<close>

theorem startJob_invalid_leaves_state_witness:
  "parse_emails (emailList (getJob BulkJobProvider init ''acct'')) = []
   \<and> (\<exists>msg. startJob ''acct'' init = init\<lparr>log := log init @ [Toast TError msg]\<rparr>)
   \<and> parse_emails (emailList (getJob TrackEventProvider init ''acct'')) = []
   \<and> (\<exists>msg. startJob_track (\<lambda>s. None) ''acct'' init
              = init\<lparr>log := log init @ [Toast TError msg]\<rparr>)"
  using startJob_invalid_leaves_state [of init "''acct''" init "\<lambda>s. None"]
  by (simp add: getJob_def init_def BulkJobProvider_def TrackEventProvider_def
      defaultJobState_def defaultTrackJobState_def parse_emails_def trim_def)

lemma jobs_updateJobData_other [simp]:
  "b \<noteq> a \<Longrightarrow> jobs (updateJobData P a f w) b = jobs w b"
  by (simp add: updateJobData_def)

lemma jobs_record_outcome_other [simp]:
  "b \<noteq> acc r \<Longrightarrow> jobs (record_outcome out w r) b = jobs w b"
  by (simp add: record_outcome_def split: option.splits fetch_outcome.splits)

lemma frame_loop:
  "frame w r (finish P w r)"
  "frame w r (before_fetch P w r)"
  "frame w r (after_countdown P w r)"
  "frame w r (countdown_pause w r)"
  "frame w r (countdown_loop P w r)"
  "frame w r (after_pause P w r)"
  "frame w r (pause_loop P w r)"
  "frame w r (loop_top P w r)"
  "frame w r (resume_run P out w r)"
  by (simp_all add: frame_def loop_defs split: pc.splits)

lemma wake_controllers: "controllers (wake P k out w) = controllers w"
  using frame_loop(9) [of w "runs w ! k" P out]
  by (auto simp: wake_def frame_def split: prod.splits)

lemma loop_top_fst [simp]:
  "controllers (fst (loop_top P w r)) = controllers w"
  "heap (fst (loop_top P w r)) = heap w"
  "next_ref (fst (loop_top P w r)) = next_ref w"
  "runs (fst (loop_top P w r)) = runs w"
  using frame_loop(8) [of w r P] by (simp_all add: frame_def)

lemma begin_run_controllers:
  "controllers (begin_run P a es dly cap w) = (controllers w)(a \<mapsto> next_ref w)"
  by (simp add: begin_run_def Let_def split_beta)

lemma step_keeps_token_bulk:
  "controllers w a \<noteq> None \<Longrightarrow> controllers (step BulkJobProvider startJob ev w) a \<noteq> None"
  by (cases ev)
     (auto simp: step_def startJob_def Let_def begin_run_controllers wake_controllers
        pauseJob_def resumeJob_def stopJob_def tick_def split: option.splits)

lemma step_keeps_token_track:
  "controllers w a \<noteq> None \<Longrightarrow>
   controllers (step TrackEventProvider (startJob_track parse) ev w) a \<noteq> None"
  by (cases ev)
     (auto simp: step_def startJob_track_def Let_def begin_run_controllers wake_controllers
        pauseJob_def resumeJob_def stopJob_def tick_def split: option.splits)

text \<open>
  C10. Without a token for the account, \<^verbatim>\<open>pauseJob\<close>, \<^verbatim>\<open>resumeJob\<close> and \<^verbatim>\<open>stopJob\<close>
  return the world unchanged. With a token, whatever the status was (completed and
  stopped included), \<^verbatim>\<open>pauseJob\<close> leaves status paused and \<^verbatim>\<open>resumeJob\<close> leaves status
  processing. A start that passes validation registers a token, and no event of either
  provider ever removes one, so once a token exists the guard passes after every later
  sequence of events.
\<close>

theorem control_needs_token:
  "(controllers w0 a = None \<longrightarrow>
       pauseJob P a w0 = w0 \<and> resumeJob P a w0 = w0 \<and> stopJob P a w0 = w0)
   \<and> (controllers w a \<noteq> None \<longrightarrow>
       (\<exists>j. jobs (pauseJob P a w) a = Some j \<and> status j = Paused)
       \<and> (\<exists>j. jobs (resumeJob P a w) a = Some j \<and> status j = Processing))
   \<and> (controllers u a \<noteq> None \<longrightarrow>
         controllers (exec BulkJobProvider startJob evs u) a \<noteq> None)
   \<and> (controllers v a \<noteq> None \<longrightarrow>
         controllers (exec TrackEventProvider (startJob_track parse) evs' v) a \<noteq> None)
   \<and> controllers (begin_run P a es dly cap w1) a = Some (next_ref w1)"
proof -
  have b: "controllers u a \<noteq> None \<Longrightarrow>
      controllers (exec BulkJobProvider startJob evs u) a \<noteq> None" for u
    by (induction evs arbitrary: u) (simp_all add: step_keeps_token_bulk del: not_None_eq)
  have t: "controllers v a \<noteq> None \<Longrightarrow>
      controllers (exec TrackEventProvider (startJob_track parse) evs' v) a \<noteq> None" for v
    by (induction evs' arbitrary: v) (simp_all add: step_keeps_token_track del: not_None_eq)
  have c: "controllers w0 a = None \<longrightarrow>
       pauseJob P a w0 = w0 \<and> resumeJob P a w0 = w0 \<and> stopJob P a w0 = w0"
    by (simp add: pauseJob_def resumeJob_def stopJob_def)
  have d: "controllers w a \<noteq> None \<longrightarrow>
       (\<exists>j. jobs (pauseJob P a w) a = Some j \<and> status j = Paused)
       \<and> (\<exists>j. jobs (resumeJob P a w) a = Some j \<and> status j = Processing)"
    by (auto simp: pauseJob_def resumeJob_def updateJobData_def)
  have e: "controllers (begin_run P a es dly cap w1) a = Some (next_ref w1)"
    by (simp add: begin_run_controllers)
  show ?thesis using b t c d e by blast
qed


lemma keeps_counts_loop:
  "keeps_counts w r (finish P w r)"
  "keeps_counts w r (before_fetch P w r)"
  "keeps_counts w r (after_countdown P w r)"
  "keeps_counts w r (countdown_pause w r)"
  "keeps_counts w r (countdown_loop P w r)"
  "keeps_counts w r (after_pause P w r)"
  "keeps_counts w r (pause_loop P w r)"
  "keeps_counts w r (loop_top P w r)"
  by (simp_all add: keeps_counts_def same_counts_def loop_defs updateJobData_def getJob_def)


lemma request_of_upd [simp]:
  "request_of (r\<lparr>pc := x\<rparr>) = request_of r"
  "request_of (r\<lparr>ctrl := c\<rparr>) = request_of r"
  "request_of (r\<lparr>remaining := k\<rparr>) = request_of r"
  by (simp_all add: request_of_def split: captured.splits)


lemmas eval_defs = step_def updateJobData_def getJob_def startJob_def startJob_track_def
  parse_emails_def trim_def js_whitespace_def Let_def begin_run_def wake_def
  loop_defs record_outcome_def stopped_q_def paused_q_def add_log_def init_def
  BulkJobProvider_def TrackEventProvider_def defaultJobState_def defaultTrackJobState_def
  pauseJob_def resumeJob_def stopJob_def tick_def request_of_def





text \<open>
  A fresh provider has no token; a completed job with a token is set to paused or to
  processing by the two commands.
\<close>

theorem control_needs_token_witness:
  "controllers (init :: JobState world) ''acct'' = None
   \<and> pauseJob BulkJobProvider ''acct'' init = init
   \<and> resumeJob BulkJobProvider ''acct'' init = init
   \<and> stopJob BulkJobProvider ''acct'' init = init
   \<and> controllers (finished_world defaultJobState) ''acct'' \<noteq> None
   \<and> status (getJob BulkJobProvider (finished_world defaultJobState) ''acct'') = Completed
   \<and> (\<exists>j. jobs (pauseJob BulkJobProvider ''acct'' (finished_world defaultJobState)) ''acct''
             = Some j \<and> status j = Paused)
   \<and> (\<exists>j. jobs (resumeJob BulkJobProvider ''acct'' (finished_world defaultJobState)) ''acct''
             = Some j \<and> status j = Processing)
   \<and> controllers (exec BulkJobProvider startJob [EPause ''acct'', ETick, EStart ''acct'']
                    (finished_world defaultJobState)) ''acct'' \<noteq> None
   \<and> controllers (exec TrackEventProvider (startJob_track (\<lambda>s. None))
                    [EResume ''acct'', EStart ''acct'']
                    (finished_world defaultTrackJobState)) ''acct'' \<noteq> None"
  using control_needs_token [of init "''acct''" BulkJobProvider "finished_world defaultJobState"
      "finished_world defaultJobState" "[EPause ''acct'', ETick, EStart ''acct'']"
      "finished_world defaultTrackJobState" "\<lambda>s. None" "[EResume ''acct'', EStart ''acct'']"]
  by (simp add: finished_world_def init_def getJob_def)

text \<open>
  C7, as stated, fails. Two recipients, delay 3: after the first call the countdown shows
  3 and the loop sleeps its first second. The operator pauses; the sleep in flight ends
  and the countdown drops to 2 while the job is paused; after the resume the countdown is
  2, not the 3 it showed at the moment of the pause, and the next decrement gives 1.
\<close>

theorem pause_resume_countdown_counterexample:
  "countdown_of (exec BulkJobProvider startJob in_countdown init) ''acct'' = Some 3
   \<and> map pc (runs (exec BulkJobProvider startJob in_countdown init)) = [CountdownSleep]
   \<and> countdown_of
         (exec BulkJobProvider startJob
            (in_countdown @ [EPause ''acct'', EWake 0 (Responded True (JObj [])),
                             EResume ''acct''])
            init) ''acct'' = Some 2
   \<and> countdown_of
         (exec BulkJobProvider startJob
            (in_countdown @ [EPause ''acct'', EWake 0 (Responded True (JObj [])),
                             EResume ''acct'', EWake 0 (Responded True (JObj [])),
                             EWake 0 (Responded True (JObj []))])
            init) ''acct'' = Some 1"
  by (simp add: in_countdown_def countdown_of_def eval_defs)

lemma jobs_updateJobData_same [simp]:
  "jobs (updateJobData P a f w) a = Some (f (getJob P w a))"
  by (simp add: updateJobData_def)

lemma pause_resume_keep_countdown:
  assumes "jobs w a = Some j"
  shows "countdown_of (pauseJob P a w) a = Some (countdown j)"
    and "countdown_of (resumeJob P a w) a = Some (countdown j)"
    and "runs (pauseJob P a w) = runs w" and "runs (resumeJob P a w) = runs w"
  using assms
  by (simp_all add: countdown_of_def pauseJob_def resumeJob_def updateJobData_def getJob_def
      add_log_def split: option.splits)

lemma countdown_poll_keeps:
  assumes "pc r = CountdownPauseWait" and "resume_run P out w r = (w', r')"
  shows "remaining r' = remaining r \<and> jobs w' = jobs w
      \<and> pc r' = (if paused_q w (ctrl r) \<and> \<not> stopped_q w (ctrl r)
                 then CountdownPauseWait else CountdownSleep)"
  using assms by (auto simp: resume_run_def countdown_pause_def split: if_splits)

lemma countdown_sleep_decrements:
  assumes "pc r = CountdownSleep" and "resume_run P out w r = (w', r')"
  shows "remaining r' = remaining r - 1"
    and "remaining r - 1 > 0 \<and> \<not> stopped_q w (ctrl r) \<longrightarrow>
           countdown_of w' (acc r) = Some (remaining r - 1)
           \<and> pc r' = (if paused_q w (ctrl r) then CountdownPauseWait else CountdownSleep)"
  using assms
  by (auto simp: resume_run_def countdown_loop_def countdown_pause_def after_countdown_def
      before_fetch_def finish_def countdown_of_def split: if_splits)

text \<open>
  C7, amended. Neither \<^verbatim>\<open>pauseJob\<close> nor \<^verbatim>\<open>resumeJob\<close> changes the countdown of the job
  or any variable of a run-loop. A loop that polls the pause flag inside the countdown
  keeps its remaining value and the job record, and goes back to sleeping once the
  token is no longer paused. A loop woken from a one-second sleep decrements its
  remaining value by exactly one, whether paused or not, and while the result is
  positive writes it to the countdown; only then does it look at the pause flag. So a
  pause holds the countdown from the end of the second in flight, and the delay is
  never restarted from the configured value.
\<close>

theorem pause_resume_countdown_amended:
  "(jobs w a = Some j \<longrightarrow>
      countdown_of (pauseJob P a w) a = Some (countdown j)
      \<and> countdown_of (resumeJob P a w) a = Some (countdown j)
      \<and> runs (pauseJob P a w) = runs w \<and> runs (resumeJob P a w) = runs w)
   \<and> (pc rp = CountdownPauseWait \<and> resume_run P outp wp rp = (wp', rp') \<longrightarrow>
      remaining rp' = remaining rp \<and> jobs wp' = jobs wp
      \<and> pc rp' = (if paused_q wp (ctrl rp) \<and> \<not> stopped_q wp (ctrl rp)
                  then CountdownPauseWait else CountdownSleep))
   \<and> (pc rs = CountdownSleep \<and> resume_run P outs ws rs = (ws', rs') \<longrightarrow>
      remaining rs' = remaining rs - 1
      \<and> (remaining rs - 1 > 0 \<and> \<not> stopped_q ws (ctrl rs) \<longrightarrow>
           countdown_of ws' (acc rs) = Some (remaining rs - 1)
           \<and> pc rs' = (if paused_q ws (ctrl rs) then CountdownPauseWait else CountdownSleep)))"
  using pause_resume_keep_countdown [of w a j P] countdown_poll_keeps [of rp P outp wp wp' rp']
    countdown_sleep_decrements [of rs P outs ws ws' rs']
  by blast

lemma paused_in_sleep_run:
  "runs paused_in_sleep =
     [\<lparr> acc = ''acct'', emails = [''a@x.com'', ''b@x.com''], job_delay = 3,
        job = SendJob ''Hi'' ''Hello'' [] [], i = 1, ctrl = Some 0, remaining = 3,
        pc = CountdownSleep \<rparr>]"
  "heap paused_in_sleep 0 = \<lparr> isPaused = True, isStopped = False \<rparr>"
  "countdown_of paused_in_sleep ''acct'' = Some 3"
  by (simp_all add: paused_in_sleep_def in_countdown_def countdown_of_def eval_defs)

lemma paused_in_poll_run:
  "runs paused_in_poll =
     [\<lparr> acc = ''acct'', emails = [''a@x.com'', ''b@x.com''], job_delay = 3,
        job = SendJob ''Hi'' ''Hello'' [] [], i = 1, ctrl = Some 0, remaining = 2,
        pc = CountdownPauseWait \<rparr>]"
  "heap paused_in_poll 0 = \<lparr> isPaused = True, isStopped = False \<rparr>"
  "countdown_of paused_in_poll ''acct'' = Some 2"
  by (simp_all add: paused_in_poll_def in_countdown_def countdown_of_def eval_defs)

text \<open>
  A pause during the first second of a delay of 3: the sleep ends with 2 remaining and
  the loop starts polling; polling keeps the 2.
\<close>

theorem pause_resume_countdown_amended_witness:
  "countdown_of paused_in_sleep ''acct'' = Some 3
   \<and> countdown_of (resumeJob BulkJobProvider ''acct'' paused_in_sleep) ''acct'' = Some 3
   \<and> pc (runs paused_in_sleep ! 0) = CountdownSleep
   \<and> remaining (snd (resume_run BulkJobProvider (Threw []) paused_in_sleep
                          (runs paused_in_sleep ! 0))) = 2
   \<and> countdown_of (fst (resume_run BulkJobProvider (Threw []) paused_in_sleep
                          (runs paused_in_sleep ! 0))) ''acct'' = Some 2
   \<and> pc (snd (resume_run BulkJobProvider (Threw []) paused_in_sleep
                          (runs paused_in_sleep ! 0))) = CountdownPauseWait
   \<and> pc (runs paused_in_poll ! 0) = CountdownPauseWait
   \<and> remaining (snd (resume_run BulkJobProvider (Threw []) paused_in_poll
                          (runs paused_in_poll ! 0))) = 2
   \<and> pc (snd (resume_run BulkJobProvider (Threw []) paused_in_poll
                          (runs paused_in_poll ! 0))) = CountdownPauseWait"
proof -
  let ?xs = "resume_run BulkJobProvider (Threw []) paused_in_sleep (runs paused_in_sleep ! 0)"
  let ?xp = "resume_run BulkJobProvider (Threw []) paused_in_poll (runs paused_in_poll ! 0)"
  obtain j where j: "jobs paused_in_sleep ''acct'' = Some j" "countdown j = 3"
    using paused_in_sleep_run(3) by (auto simp: countdown_of_def)
  have s: "?xs = (fst ?xs, snd ?xs)" and p: "?xp = (fst ?xp, snd ?xp)"
    by simp_all
  show ?thesis
    using pause_resume_countdown_amended [of paused_in_sleep "''acct''" j BulkJobProvider
        "runs paused_in_poll ! 0" "Threw []" paused_in_poll "fst ?xp" "snd ?xp"
        "runs paused_in_sleep ! 0" "Threw []" paused_in_sleep "fst ?xs" "snd ?xs"] j s p
    by (simp add: paused_in_sleep_run paused_in_poll_run paused_q_def stopped_q_def)
qed

text \<open>
  C9, as stated, fails. Two recipients, no delay; \<^verbatim>\<open>startJob\<close> is called a second time
  while the first call of the first run-loop is pending. When that call returns, the
  first loop records its outcome in the job record of the new run, takes the new token
  at the top of its next iteration and issues the call for its second recipient; the
  second loop records as well. Both loops are still running, two results with id 1 are
  recorded and four calls have been issued for two recipients.
\<close>

theorem orphaned_loop_counterexample:
  "map pc (runs (exec BulkJobProvider startJob restart_during_call init)) = [Fetching, Fetching]
   \<and> map i (runs (exec BulkJobProvider startJob restart_during_call init)) = [1, 1]
   \<and> map ctrl (runs (exec BulkJobProvider startJob restart_during_call init)) = [Some 1, Some 1]
   \<and> controllers (exec BulkJobProvider startJob restart_during_call init) ''acct'' = Some 1
   \<and> results_of (exec BulkJobProvider startJob restart_during_call init) ''acct'' =
        [\<lparr> id_r = 1, email = ''a@x.com'', status_r = Success, response = JObj [] \<rparr>,
         \<lparr> id_r = 1, email = ''a@x.com'', status_r = Success, response = JObj [] \<rparr>]
   \<and> length (fetches (exec BulkJobProvider startJob restart_during_call init)) = 4"
  by (simp add: restart_during_call_def results_of_def fetches_def eval_defs)

lemma record_outcome_results:
  assumes "jobs w (acc r) = Some j"
  shows "results_of (record_outcome out w r) (acc r) =
           \<lparr> id_r = i r + 1, email = emails r ! i r, status_r = outcome_status out,
              response = outcome_body out \<rparr> # results j"
  using assms
  by (auto simp: record_outcome_def results_of_def outcome_status_def outcome_body_def
      is_failure_def synthesized_error_def split: fetch_outcome.splits)

lemma results_of_loop_top:
  "jobs w (acc r) \<noteq> None \<Longrightarrow> results_of (fst (loop_top P w r)) (acc r) = results_of w (acc r)"
  using keeps_counts_loop(8) [of w r P]
  by (auto simp: keeps_counts_def same_counts_def results_of_def)

lemma loop_top_continues:
  assumes "controllers w (acc r) = Some p" and "\<not> isStopped (heap w p)"
    and "\<not> isPaused (heap w p)" and "i r < length (emails r)"
  shows "ctrl (snd (loop_top P w r)) = Some p
     \<and> (pc (snd (loop_top P w r)) = Fetching \<or> pc (snd (loop_top P w r)) = CountdownSleep)"
  using assms
  by (simp add: loop_top_def pause_loop_def after_pause_def countdown_loop_def
      countdown_pause_def before_fetch_def stopped_q_def paused_q_def)

lemma fetch_wake_under_token:
  assumes "pc r = Fetching" and "jobs w (acc r) = Some j"
    and "controllers w (acc r) = Some p" and "\<not> isStopped (heap w p)"
    and "\<not> isPaused (heap w p)" and "i r + 1 < length (emails r)"
    and "resume_run P out w r = (w', r')"
  shows "results_of w' (acc r) =
           \<lparr> id_r = i r + 1, email = emails r ! i r, status_r = outcome_status out,
              response = outcome_body out \<rparr> # results j"
    and "ctrl r' = Some p" and "pc r' = Fetching \<or> pc r' = CountdownSleep"
proof -
  let ?w1 = "record_outcome out w r"
  let ?r1 = "r\<lparr>i := i r + 1\<rparr>"
  have eq: "loop_top P ?w1 ?r1 = (w', r')"
    using assms(1,7) by (simp add: resume_run_def)
  have j1: "jobs ?w1 (acc ?r1) \<noteq> None"
    using assms(2) by (auto simp: record_outcome_def split: fetch_outcome.splits)
  show "results_of w' (acc r) =
           \<lparr> id_r = i r + 1, email = emails r ! i r, status_r = outcome_status out,
              response = outcome_body out \<rparr> # results j"
    using results_of_loop_top [OF j1, of P] eq record_outcome_results [OF assms(2), of out]
    by simp
  have "ctrl (snd (loop_top P ?w1 ?r1)) = Some p
     \<and> (pc (snd (loop_top P ?w1 ?r1)) = Fetching \<or> pc (snd (loop_top P ?w1 ?r1)) = CountdownSleep)"
    by (rule loop_top_continues) (use assms in simp_all)
  then show "ctrl r' = Some p" and "pc r' = Fetching \<or> pc r' = CountdownSleep"
    using eq by simp_all
qed

text \<open>
  C9, amended. A valid second \<^verbatim>\<open>startJob\<close> puts a fresh token, neither paused nor
  stopped, under the account; the earlier token object and the earlier run-loops are
  left as they are, and the results of the job are reset to empty. Nothing ties a loop
  to the token it started with: an earlier loop of the account whose call returns after
  the second start writes its outcome into the reset record, and when it has recipients
  left it reads the account's current token, the new one, and goes on to its next delay
  phase or call.
\<close>

theorem second_start_adopts_earlier_loop:
  assumes "parse_emails (emailList (getJob BulkJobProvider w a)) \<noteq> []"
    and "subject (getJob BulkJobProvider w a) \<noteq> []"
    and "content (getJob BulkJobProvider w a) \<noteq> []"
    and "acc r = a" and "pc r = Fetching" and "i r + 1 < length (emails r)"
    and "resume_run BulkJobProvider out (startJob a w) r = (w', r')"
  shows "controllers (startJob a w) a = Some (next_ref w)
     \<and> heap (startJob a w) (next_ref w) = \<lparr> isPaused = False, isStopped = False \<rparr>
     \<and> (\<forall>p. p \<noteq> next_ref w \<longrightarrow> heap (startJob a w) p = heap w p)
     \<and> take (length (runs w)) (runs (startJob a w)) = runs w
     \<and> results_of (startJob a w) a = []
     \<and> results_of w' a =
          [\<lparr> id_r = i r + 1, email = emails r ! i r, status_r = outcome_status out,
              response = outcome_body out \<rparr>]
     \<and> ctrl r' = Some (next_ref w)
     \<and> (pc r' = Fetching \<or> pc r' = CountdownSleep)"
proof -
  let ?w1 = "startJob a w"
  have s: "?w1 = begin_run BulkJobProvider a (parse_emails (emailList (getJob BulkJobProvider w a)))
             (delay (getJob BulkJobProvider w a))
             (SendJob (subject (getJob BulkJobProvider w a)) (content (getJob BulkJobProvider w a))
                (fromEmail (getJob BulkJobProvider w a)) (fromName (getJob BulkJobProvider w a))) w"
    using assms(1,2,3) by (simp add: startJob_def Let_def)
  have c: "controllers ?w1 a = Some (next_ref w)"
    and h: "heap ?w1 (next_ref w) = \<lparr> isPaused = False, isStopped = False \<rparr>"
    and h': "\<forall>p. p \<noteq> next_ref w \<longrightarrow> heap ?w1 p = heap w p"
    and t: "take (length (runs w)) (runs ?w1) = runs w"
    and e: "results_of ?w1 a = []"
    and j: "\<exists>j. jobs ?w1 a = Some j \<and> results j = []"
    using assms(1) by (simp_all add: s begin_run_eq results_of_def)
  obtain j where j: "jobs ?w1 (acc r) = Some j" "results j = []"
    using j assms(4) by auto
  have c': "controllers ?w1 (acc r) = Some (next_ref w)"
    using c assms(4) by simp
  have np: "\<not> isStopped (heap ?w1 (next_ref w))" "\<not> isPaused (heap ?w1 (next_ref w))"
    using h by simp_all
  note F = fetch_wake_under_token [OF assms(5) j(1) c' np assms(6,7)]
  show ?thesis
    using c h h' t e F j(2) assms(4) by simp
qed

lemma call_pending_facts:
  "runs call_pending =
     [\<lparr> acc = ''acct'', emails = [''a@x.com'', ''b@x.com''], job_delay = 0,
        job = SendJob ''Hi'' ''Hello'' [] [], i = 0, ctrl = Some 0, remaining = 0,
        pc = Fetching \<rparr>]"
  "next_ref call_pending = 1"
  "parse_emails (emailList (getJob BulkJobProvider call_pending ''acct''))
     = [''a@x.com'', ''b@x.com'']"
  "subject (getJob BulkJobProvider call_pending ''acct'') = ''Hi''"
  "content (getJob BulkJobProvider call_pending ''acct'') = ''Hello''"
  by (simp_all add: call_pending_def restart_during_call_def eval_defs)

text \<open>
  The first loop has its first call pending when the job is started again.
\<close>

theorem second_start_adopts_earlier_loop_witness:
  "parse_emails (emailList (getJob BulkJobProvider call_pending ''acct'')) \<noteq> []
   \<and> pc (runs call_pending ! 0) = Fetching
   \<and> ctrl (runs call_pending ! 0) = Some 0
   \<and> controllers (startJob ''acct'' call_pending) ''acct'' = Some 1
   \<and> results_of (startJob ''acct'' call_pending) ''acct'' = []
   \<and> results_of (fst (resume_run BulkJobProvider (Responded True (JObj []))
                        (startJob ''acct'' call_pending) (runs call_pending ! 0))) ''acct''
       = [\<lparr> id_r = 1, email = ''a@x.com'', status_r = Success, response = JObj [] \<rparr>]
   \<and> ctrl (snd (resume_run BulkJobProvider (Responded True (JObj []))
                   (startJob ''acct'' call_pending) (runs call_pending ! 0))) = Some 1
   \<and> (pc (snd (resume_run BulkJobProvider (Responded True (JObj []))
                   (startJob ''acct'' call_pending) (runs call_pending ! 0))) = Fetching
        \<or> pc (snd (resume_run BulkJobProvider (Responded True (JObj []))
                   (startJob ''acct'' call_pending) (runs call_pending ! 0))) = CountdownSleep)"
proof -
  let ?r = "runs call_pending ! 0"
  let ?x = "resume_run BulkJobProvider (Responded True (JObj []))
              (startJob ''acct'' call_pending) ?r"
  have x: "?x = (fst ?x, snd ?x)"
    by simp
  have h: "parse_emails (emailList (getJob BulkJobProvider call_pending ''acct'')) \<noteq> []"
    "subject (getJob BulkJobProvider call_pending ''acct'') \<noteq> []"
    "content (getJob BulkJobProvider call_pending ''acct'') \<noteq> []"
    "acc ?r = ''acct''" "pc ?r = Fetching" "i ?r + 1 < length (emails ?r)"
    by (simp_all add: call_pending_facts)
  show ?thesis
    using second_start_adopts_earlier_loop [OF h x] h(1)
    by (simp add: call_pending_facts outcome_status_def outcome_body_def is_failure_def)
qed


lemma fetches_simps [simp]:
  "fetches (updateJobData P a f w) = fetches w"
  "fetches (add_log (Toast k m) w) = fetches w"
  "fetches (add_log (Timer a ms) w) = fetches w"
  "fetches (add_log (Uncaught m) w) = fetches w"
  "fetches (add_log (Fetch q) w) = fetches w @ [q]"
  by (simp_all add: fetches_def)

lemma fetches_record_outcome [simp]:
  "jobs w (acc r) \<noteq> None \<Longrightarrow> fetches (record_outcome out w r) = fetches w"
  by (auto simp: fetches_def record_outcome_def split: fetch_outcome.splits)

lemma status_of_simps [simp]:
  "status_of (add_log e w) a = status_of w a"
  "status_of (updateJobData P a f w) a = Some (status (f (getJob P w a)))"
  by (simp_all add: status_of_def)

lemma counts_of_simps [simp]:
  "counts_of (add_log e w) a = counts_of w a"
  by (simp_all add: counts_of_def)

lemma getJob_Some [simp]: "jobs w a = Some j \<Longrightarrow> getJob P w a = j"
  by (simp add: getJob_def)








text \<open>
  The track-event loop differs at this point: its check before the call only breaks, so
  after a stop during the countdown the last status written is the \<^verbatim>\<open>processing\<close> of
  line 179.
\<close>

lemma track_stop_in_countdown:
  "map pc (runs (exec TrackEventProvider (startJob_track (\<lambda>s. Some (JObj [])))
                  track_in_countdown init)) = [Done]
   \<and> status_of (exec TrackEventProvider (startJob_track (\<lambda>s. Some (JObj [])))
                  track_in_countdown init) ''acct'' = Some Processing"
  by (simp add: track_in_countdown_def status_of_def eval_defs)

lemma jobs_record_outcome_None [simp]:
  "jobs (record_outcome out w r) (acc r) = None \<longleftrightarrow> jobs w (acc r) = None"
  by (simp add: record_outcome_def split: option.splits fetch_outcome.splits)

lemma jobs_record_outcome_Some [simp]:
  "jobs w (acc r) = Some y \<Longrightarrow> \<exists>y'. jobs (record_outcome out w r) (acc r) = Some y'"
  by (auto simp: record_outcome_def split: fetch_outcome.splits)

lemma log_record_outcome [simp]:
  "jobs w (acc r) \<noteq> None \<Longrightarrow> log (record_outcome out w r) = log w"
  by (auto simp: record_outcome_def split: fetch_outcome.splits)















lemma slept_ms_Nil [simp]: "slept_ms [] = 0"
  by (simp add: slept_ms_def)

lemma slept_ms_Cons [simp]:
  "slept_ms (e # es) = (case e of Timer a ms \<Rightarrow> ms | _ \<Rightarrow> 0) + slept_ms es"
  by (simp add: slept_ms_def)

lemma slept_ms_append [simp]: "slept_ms (xs @ ys) = slept_ms xs + slept_ms ys"
  by (simp add: slept_ms_def)

lemma slept_ms_replicate_Timer [simp]: "slept_ms (replicate n (Timer a ms)) = n * ms"
  by (induction n) (simp_all add: slept_ms_def)








lemma resume_run_settled:
  assumes "jobs w (acc r) = Some j" and "job_ok j" and "run_fits j r" and "pc r \<noteq> Done"
  shows "settled w (acc r) (resume_run P out w r)"
proof (cases "pc r")
  case PauseWait
  then show ?thesis
    using assms
    by (auto simp: settled_def job_ok_def run_fits_def resume_run_def pause_loop_def
        after_pause_def countdown_loop_def countdown_pause_def after_countdown_def
        before_fetch_def finish_def)
next
  case CountdownPauseWait
  then show ?thesis
    using assms
    by (auto simp: settled_def job_ok_def run_fits_def resume_run_def countdown_pause_def)
next
  case CountdownSleep
  then show ?thesis
    using assms
    by (auto simp: settled_def job_ok_def run_fits_def resume_run_def
        countdown_loop_def countdown_pause_def after_countdown_def
        before_fetch_def finish_def)
next
  case Fetching
  have "\<exists>j1. jobs (record_outcome out w r) (acc r) = Some j1 \<and> job_ok j1
          \<and> current (progress j1) = Suc (i r) \<and> total (progress j1) = length (emails r)
          \<and> status j1 = status j \<and> countdown j1 = 0"
    using assms Fetching
    by (auto simp: record_outcome_def job_ok_def run_fits_def split: fetch_outcome.splits)
  then obtain j1 where j1: "jobs (record_outcome out w r) (acc r) = Some j1" "job_ok j1"
      "current (progress j1) = Suc (i r)" "total (progress j1) = length (emails r)"
      "status j1 = status j" "countdown j1 = 0"
    by blast
  show ?thesis
    using Fetching j1 assms(3)
    by (auto simp: settled_def job_ok_def run_fits_def resume_run_def loop_top_def pause_loop_def
        after_pause_def countdown_loop_def countdown_pause_def after_countdown_def
        before_fetch_def finish_def)
next
  case Done
  then show ?thesis using assms(4) by simp
qed

lemma filter_update_other:
  "k < length xs \<Longrightarrow> \<not> Q (xs ! k) \<Longrightarrow> \<not> Q y \<Longrightarrow> filter Q (xs[k := y]) = filter Q xs"
proof (induction xs arbitrary: k)
  case Nil
  then show ?case by simp
next
  case (Cons x xs)
  then show ?case by (cases k) simp_all
qed

lemma filter_update_only:
  "k < length xs \<Longrightarrow> Q (xs ! k) \<Longrightarrow> filter Q xs = [v] \<Longrightarrow>
   filter Q (xs[k := y]) = (if Q y then [y] else [])"
proof (induction xs arbitrary: k)
  case Nil
  then show ?case by simp
next
  case (Cons x xs)
  show ?case
  proof (cases k)
    case 0
    then show ?thesis
      using Cons.prems by (auto split: if_splits)
  next
    case (Suc k')
    have in_set: "xs ! k' \<in> set (filter Q xs)"
      using Cons.prems Suc by simp
    have nx: "\<not> Q x"
    proof
      assume "Q x"
      then have "filter Q xs = []"
        using Cons.prems(3) by simp
      then show False
        using in_set by simp
    qed
    then have "filter Q xs = [v]"
      using Cons.prems(3) by simp
    then have "filter Q (xs[k' := y]) = (if Q y then [y] else [])"
      using Cons.IH [of k'] Cons.prems Suc by simp
    then show ?thesis
      using Suc nx by simp
  qed
qed

lemma live_runs_simps [simp]:
  "live_runs (add_log e w) a = live_runs w a"
  "live_runs (updateJobData P b f w) a = live_runs w a"
  "live_runs (w\<lparr>heap := h\<rparr>) a = live_runs w a"
  "live_runs (tick w) a = live_runs w a"
  by (simp_all add: live_runs_def tick_def)

lemma acct_inv_frame [simp]:
  "acct_inv (add_log e w) a = acct_inv w a"
  "acct_inv (w\<lparr>heap := h\<rparr>) a = acct_inv w a"
  by (simp_all add: acct_inv_def)

lemma sys_inv_frame [simp]:
  "sys_inv (add_log e w) = sys_inv w"
  "sys_inv (w\<lparr>heap := h\<rparr>) = sys_inv w"
  by (simp_all add: sys_inv_def)

lemma init_inv: "sys_inv init"
  by (simp add: sys_inv_def acct_inv_def live_runs_def init_def)

lemma acct_inv_update_other:
  "b \<noteq> a \<Longrightarrow> acct_inv (updateJobData P a g w) b = acct_inv w b"
  by (simp add: acct_inv_def)

lemma acct_inv_update_same:
  assumes "acct_inv w a" and "default_ok P"
    and "\<And>j. job_ok j \<Longrightarrow> job_ok (g j)" and "\<And>j. countdown (g j) = countdown j"
    and "\<And>j r. run_fits j r \<Longrightarrow> run_fits (g j) r"
  shows "acct_inv (updateJobData P a g w) a"
  using assms
  by (auto simp: acct_inv_def default_ok_def getJob_def split: option.splits)

lemma sys_inv_update:
  assumes "sys_inv w" and "default_ok P"
    and "\<And>j. job_ok j \<Longrightarrow> job_ok (g j)" and "\<And>j. countdown (g j) = countdown j"
    and "\<And>j r. run_fits j r \<Longrightarrow> run_fits (g j) r"
  shows "sys_inv (updateJobData P a g w)"
  unfolding sys_inv_def
proof
  fix b
  show "acct_inv (updateJobData P a g w) b"
  proof (cases "b = a")
    case True
    then show ?thesis
      using acct_inv_update_same [of w a P g] assms by (simp add: sys_inv_def)
  next
    case False
    then show ?thesis
      using assms(1) by (simp add: acct_inv_update_other sys_inv_def)
  qed
qed

lemma sys_inv_set_status:
  assumes "sys_inv w" and "default_ok P" and "s \<noteq> Idle" and "s \<noteq> Completed"
  shows "sys_inv (updateJobData P a (\<lambda>j. j\<lparr>status := s\<rparr>) w)"
  using assms(3,4)
  by (intro sys_inv_update [OF assms(1,2)]) (simp_all add: job_ok_def run_fits_def)

lemma sys_inv_edit:
  assumes "sys_inv w" and "default_ok P" and "input_edit f"
  shows "sys_inv (updateJobData P a f w)"
  using assms(3)
  by (intro sys_inv_update [OF assms(1,2)]) (simp_all add: job_ok_def run_fits_def input_edit_def)

lemma sys_inv_pause: "sys_inv w \<Longrightarrow> default_ok P \<Longrightarrow> sys_inv (pauseJob P a w)"
  by (simp add: pauseJob_def sys_inv_set_status split: option.splits)

lemma sys_inv_resume: "sys_inv w \<Longrightarrow> default_ok P \<Longrightarrow> sys_inv (resumeJob P a w)"
  by (simp add: resumeJob_def sys_inv_set_status split: option.splits)

lemma sys_inv_stop: "sys_inv w \<Longrightarrow> default_ok P \<Longrightarrow> sys_inv (stopJob P a w)"
  by (simp add: stopJob_def sys_inv_set_status split: option.splits)

lemma acct_inv_map:
  assumes "acct_inv w a" and "runs w' = runs w" and "jobs w' a = map_option g (jobs w a)"
    and "\<And>j. job_ok j \<Longrightarrow> job_ok (g j)" and "\<And>j. countdown (g j) = countdown j"
    and "\<And>j r. run_fits j r \<Longrightarrow> run_fits (g j) r"
  shows "acct_inv w' a"
proof -
  have l: "live_runs w' a = live_runs w a"
    using assms(2) by (simp add: live_runs_def)
  show ?thesis
    using assms(1,3,4,5,6) unfolding acct_inv_def l
    by (cases "jobs w a") auto
qed

lemma sys_inv_tick: "sys_inv w \<Longrightarrow> sys_inv (tick w)"
  unfolding sys_inv_def
proof
  fix a
  assume "\<forall>a. acct_inv w a"
  then have "acct_inv w a" ..
  then show "acct_inv (tick w) a"
    by (rule acct_inv_map [where g = "\<lambda>j. if status j = Processing \<or> status j = Waiting
          then j\<lparr>elapsedSeconds := elapsedSeconds j + 1\<rparr> else j"])
       (simp_all add: tick_def job_ok_def run_fits_def)
qed

lemma sys_inv_begin_run:
  assumes "sys_inv w" and "es \<noteq> []" and "live_runs w a = []"
  shows "sys_inv (begin_run P a es d cap w)"
  unfolding sys_inv_def
proof
  fix b
  have wb: "acct_inv w b"
    using assms(1) by (simp add: sys_inv_def)
  show "acct_inv (begin_run P a es d cap w) b"
  proof (cases "b = a")
    case True
    then show ?thesis
      using assms(2,3)
      by (simp add: begin_run_eq acct_inv_def live_runs_def live_of_def fresh_run_def
          job_ok_def run_fits_def)
  next
    case False
    then show ?thesis
      using assms(2) wb
      by (simp add: begin_run_eq acct_inv_def live_runs_def live_of_def fresh_run_def)
  qed
qed

lemma resume_run_Done: "pc r = Done \<Longrightarrow> resume_run P out w r = (w, r)"
  by (simp add: resume_run_def)

lemma sys_inv_wake:
  assumes "sys_inv w"
  shows "sys_inv (wake P k out w)"
proof (cases "k < length (runs w)")
  case False
  then show ?thesis
    using assms by (simp add: wake_def)
next
  case True
  let ?r = "runs w ! k"
  obtain w' r' where x: "resume_run P out w ?r = (w', r')"
    by (cases "resume_run P out w ?r")
  have fr: "frame w ?r (w', r')"
    using frame_loop(9) [of w ?r P out] x by simp
  have wk: "wake P k out w = w'\<lparr>runs := (runs w)[k := r']\<rparr>"
    using True x fr by (simp add: wake_def frame_def)
  show ?thesis
  proof (cases "pc ?r = Done")
    case Done: True
    have e: "(w', r') = (w, ?r)"
      using x resume_run_Done [OF Done, of P out w] by metis
    have "w' = w" "r' = ?r"
      using e by blast+
    then show ?thesis
      using wk assms by simp
  next
    case False
    let ?a = "acc ?r"
    have lv: "live_of ?a ?r"
      using False by (simp add: live_of_def)
    have mem: "?r \<in> set (live_runs w ?a)"
      using True lv by (simp add: live_runs_def)
    have "acct_inv w ?a"
      using assms by (simp add: sys_inv_def)
    then obtain j where j: "live_runs w ?a = [?r]" "jobs w ?a = Some j" "job_ok j" "run_fits j ?r"
      using mem by (auto simp: acct_inv_def)
    have st: "settled w ?a (w', r')"
      using resume_run_settled [OF j(2,3,4) False, of P out] x by simp
    have acc': "acc r' = ?a"
      using fr by (simp add: frame_def)
    show ?thesis
      unfolding sys_inv_def
    proof
      fix b
      have wb: "acct_inv w b"
        using assms by (simp add: sys_inv_def)
      show "acct_inv (wake P k out w) b"
      proof (cases "b = ?a")
        case same: True
        have "live_runs (wake P k out w) ?a = (if live_of ?a r' then [r'] else [])"
          using filter_update_only [of k "runs w" "live_of ?a" ?r r'] True lv j(1)
          by (simp add: wk live_runs_def)
        then show ?thesis
          using st same acc' by (auto simp: acct_inv_def settled_def wk live_of_def)
      next
        case other: False
        have "live_runs (wake P k out w) b = live_runs w b"
          using filter_update_other [of k "runs w" "live_of b" r'] True other acc'
          by (simp add: wk live_runs_def live_of_def)
        moreover have "jobs (wake P k out w) b = jobs w b"
          using fr other by (simp add: wk frame_def)
        ultimately show ?thesis
          using wb by (simp add: acct_inv_def)
      qed
    qed
  qed
qed

lemma sys_inv_step:
  assumes "default_ok P" and "start_like P start" and "sys_inv w" and "allowed ev w"
  shows "sys_inv (step P start ev w)"
proof (cases ev)
  case (EStart a)
  have "(\<exists>e. start a w = add_log e w)
      \<or> (\<exists>es d cap. es \<noteq> [] \<and> start a w = begin_run P a es d cap w)"
    using assms(2) by (simp add: start_like_def)
  then show ?thesis
    using EStart assms(3,4) by (auto simp: step_def sys_inv_begin_run)
next
  case (EPause a)
  then show ?thesis using assms by (simp add: step_def sys_inv_pause)
next
  case (EResume a)
  then show ?thesis using assms by (simp add: step_def sys_inv_resume)
next
  case (EStop a)
  then show ?thesis using assms by (simp add: step_def sys_inv_stop)
next
  case ETick
  then show ?thesis using assms by (simp add: step_def sys_inv_tick)
next
  case (EWake k out)
  then show ?thesis using assms by (simp add: step_def sys_inv_wake)
next
  case (EEdit a f)
  then show ?thesis using assms by (simp add: step_def sys_inv_edit)
qed

lemma sys_inv_exec:
  assumes "default_ok P" and "start_like P start"
  shows "sys_inv w \<Longrightarrow> valid_trace P start evs w \<Longrightarrow> sys_inv (exec P start evs w)"
  by (induction evs arbitrary: w) (simp_all add: sys_inv_step [OF assms])

lemma bulk_default_ok: "default_ok BulkJobProvider"
  by (simp add: default_ok_def BulkJobProvider_def defaultJobState_def job_ok_def)

lemma bulk_start_like: "start_like BulkJobProvider startJob"
  unfolding start_like_def startJob_def Let_def by auto

lemma bulk_reachable_inv:
  "valid_trace BulkJobProvider startJob evs init \<Longrightarrow>
   acct_inv (exec BulkJobProvider startJob evs init) a"
  using sys_inv_exec [OF bulk_default_ok bulk_start_like init_inv, of evs]
  by (simp add: sys_inv_def)



lemmas trace_defs = live_runs_def live_of_def input_edit_def



lemma paused_in_sleep_valid:
  "valid_trace BulkJobProvider startJob (in_countdown @ [EPause ''acct'']) init"
  by (simp add: in_countdown_def trace_defs eval_defs)

lemma only_edit_valid:
  "valid_trace BulkJobProvider startJob (take 1 in_countdown) init"
  by (simp add: in_countdown_def trace_defs eval_defs)

lemma only_edit_job:
  "status_of (exec BulkJobProvider startJob (take 1 in_countdown) init) ''acct'' = Some Idle"
  "countdown_of (exec BulkJobProvider startJob (take 1 in_countdown) init) ''acct'' = Some 0"
  by (simp_all add: in_countdown_def status_of_def countdown_of_def eval_defs)

lemma exec_append:
  "exec P start (evs @ evs') w = exec P start evs' (exec P start evs w)"
  by (induction evs arbitrary: w) simp_all

lemma valid_trace_append:
  "valid_trace P start (evs @ evs') w
     = (valid_trace P start evs w \<and> valid_trace P start evs' (exec P start evs w))"
  by (induction evs arbitrary: w) auto

lemma resume_run_waiting:
  assumes "jobs w (acc r) = Some j" and "run_fits j r" and "pc r \<noteq> Done"
    and "countdown j \<noteq> 0 \<longrightarrow> status j = Waiting"
  shows "waiting_ok (fst (resume_run P out w r)) (acc r)"
proof (cases "pc r")
  case PauseWait
  then show ?thesis
    using assms
    by (auto simp: waiting_ok_def run_fits_def resume_run_def pause_loop_def
        after_pause_def countdown_loop_def countdown_pause_def after_countdown_def
        before_fetch_def finish_def)
next
  case CountdownPauseWait
  then show ?thesis
    using assms
    by (auto simp: waiting_ok_def run_fits_def resume_run_def countdown_pause_def)
next
  case CountdownSleep
  then show ?thesis
    using assms
    by (auto simp: waiting_ok_def run_fits_def resume_run_def
        countdown_loop_def countdown_pause_def after_countdown_def
        before_fetch_def finish_def)
next
  case Fetching
  have "\<exists>j1. jobs (record_outcome out w r) (acc r) = Some j1 \<and> countdown j1 = 0"
    using assms Fetching
    by (auto simp: record_outcome_def run_fits_def split: fetch_outcome.splits)
  then obtain j1 where j1: "jobs (record_outcome out w r) (acc r) = Some j1" "countdown j1 = 0"
    by blast
  show ?thesis
    using Fetching j1
    by (auto simp: waiting_ok_def resume_run_def loop_top_def pause_loop_def
        after_pause_def countdown_loop_def countdown_pause_def after_countdown_def
        before_fetch_def finish_def)
next
  case Done
  then show ?thesis using assms(3) by simp
qed

lemma waiting_ok_frame [simp]:
  "waiting_ok (add_log e w) a = waiting_ok w a"
  "waiting_ok (w\<lparr>heap := h\<rparr>) a = waiting_ok w a"
  "b \<noteq> a \<Longrightarrow> waiting_ok (updateJobData P b g w) a = waiting_ok w a"
  by (simp_all add: waiting_ok_def)

lemma waiting_ok_commands_other:
  "b \<noteq> a \<Longrightarrow> waiting_ok (pauseJob P b w) a = waiting_ok w a"
  "b \<noteq> a \<Longrightarrow> waiting_ok (resumeJob P b w) a = waiting_ok w a"
  "b \<noteq> a \<Longrightarrow> waiting_ok (stopJob P b w) a = waiting_ok w a"
  by (simp_all add: pauseJob_def resumeJob_def stopJob_def split: option.splits)

lemma waiting_ok_tick: "waiting_ok (tick w) a = waiting_ok w a"
  by (cases "jobs w a") (simp_all add: waiting_ok_def tick_def)

lemma waiting_ok_edit:
  assumes "waiting_ok w a" and "default_ok P" and "input_edit f"
  shows "waiting_ok (updateJobData P b f w) a"
proof (cases "b = a")
  case True
  have f: "countdown (f j) = countdown j" "status (f j) = status j" for j
    using assms(3) by (simp_all add: input_edit_def)
  show ?thesis
  proof (cases "jobs w a")
    case None
    then show ?thesis
      using True assms(2) f by (simp add: waiting_ok_def default_ok_def getJob_def)
  next
    case (Some j)
    then show ?thesis
      using True assms(1) f by (simp add: waiting_ok_def getJob_def)
  qed
next
  case False
  then show ?thesis using assms(1) by simp
qed

lemma waiting_ok_begin_run:
  assumes "waiting_ok w a" and "es \<noteq> []"
  shows "waiting_ok (begin_run P b es d cap w) a"
proof (cases "b = a")
  case True
  then show ?thesis
    using assms(2) by (simp add: waiting_ok_def begin_run_eq)
next
  case False
  then show ?thesis
    using assms by (simp add: waiting_ok_def begin_run_eq)
qed

lemma waiting_ok_wake:
  assumes "sys_inv w" and "waiting_ok w a"
  shows "waiting_ok (wake P k out w) a"
proof (cases "k < length (runs w)")
  case False
  then show ?thesis
    using assms by (simp add: wake_def)
next
  case True
  let ?r = "runs w ! k"
  obtain w' r' where x: "resume_run P out w ?r = (w', r')"
    by (cases "resume_run P out w ?r")
  have fr: "frame w ?r (w', r')"
    using frame_loop(9) [of w ?r P out] x by simp
  have wk: "jobs (wake P k out w) = jobs w'"
    using True x by (simp add: wake_def)
  show ?thesis
  proof (cases "acc ?r = a \<and> pc ?r \<noteq> Done")
    case False
    have "jobs w' a = jobs w a"
    proof (cases "pc ?r = Done")
      case True
      have "(w', r') = (w, ?r)"
        using x resume_run_Done [OF True, of P out w] by metis
      then have "w' = w"
        by blast
      then show ?thesis
        by simp
    next
      case False
      then show ?thesis
        using fr \<open>\<not> (acc ?r = a \<and> pc ?r \<noteq> Done)\<close> by (simp add: frame_def)
    qed
    then show ?thesis
      using assms(2) wk by (simp add: waiting_ok_def)
  next
    case live: True
    have mem: "?r \<in> set (live_runs w a)"
      using True live by (simp add: live_runs_def live_of_def)
    have "acct_inv w a"
      using assms(1) by (simp add: sys_inv_def)
    then obtain j where j: "jobs w a = Some j" "run_fits j ?r"
      using mem by (auto simp: acct_inv_def)
    have "waiting_ok (fst (resume_run P out w ?r)) (acc ?r)"
      using resume_run_waiting [of w ?r j P out] j live assms(2) by (simp add: waiting_ok_def)
    then show ?thesis
      using x wk live by (simp add: waiting_ok_def)
  qed
qed

lemma waiting_ok_step:
  assumes "default_ok P" and "start_like P start" and "sys_inv w" and "allowed ev w"
    and "\<not> command_for a ev" and "waiting_ok w a"
  shows "waiting_ok (step P start ev w) a"
proof (cases ev)
  case (EStart b)
  have "(\<exists>e. start b w = add_log e w)
      \<or> (\<exists>es d cap. es \<noteq> [] \<and> start b w = begin_run P b es d cap w)"
    using assms(2) by (simp add: start_like_def)
  then show ?thesis
    using EStart assms(6) by (auto simp: step_def waiting_ok_begin_run)
next
  case (EPause b)
  then show ?thesis using assms(5,6) by (simp add: step_def waiting_ok_commands_other)
next
  case (EResume b)
  then show ?thesis using assms(5,6) by (simp add: step_def waiting_ok_commands_other)
next
  case (EStop b)
  then show ?thesis using assms(5,6) by (simp add: step_def waiting_ok_commands_other)
next
  case ETick
  then show ?thesis using assms(6) by (simp add: step_def waiting_ok_tick)
next
  case (EWake k out)
  then show ?thesis using assms(3,6) by (simp add: step_def waiting_ok_wake)
next
  case (EEdit b f)
  then show ?thesis using assms(1,4,6) by (simp add: step_def waiting_ok_edit)
qed

lemma waiting_ok_exec:
  assumes "default_ok P" and "start_like P start"
  shows "sys_inv w \<Longrightarrow> valid_trace P start evs w \<Longrightarrow> calm a evs \<Longrightarrow> waiting_ok w a
         \<Longrightarrow> waiting_ok (exec P start evs w) a"
proof (induction evs arbitrary: w)
  case Nil
  then show ?case by simp
next
  case (Cons ev evs)
  have s: "sys_inv (step P start ev w)"
    using sys_inv_step [OF assms Cons.prems(1)] Cons.prems(2) by simp
  have k: "waiting_ok (step P start ev w) a"
    using waiting_ok_step [OF assms Cons.prems(1)] Cons.prems(2,3,4) by simp
  show ?case
    using Cons.IH [OF s _ _ k] Cons.prems(2,3) by simp
qed

text \<open>
  C8, as stated, fails. During the delay phase the countdown is 3; a pause writes status
  paused, a resume after it writes status processing, a stop writes status stopped, and
  each leaves the countdown at 3. When a job is started again while a call of the
  earlier run-loop is pending, the earlier loop ends while the new one is in its delay
  phase and writes status completed over a countdown of 3. And \<^verbatim>\<open>updateJobData\<close> accepts
  any field: called with a countdown it leaves an idle job with countdown 5.
\<close>

theorem countdown_only_waiting_counterexample:
  "status_of (exec BulkJobProvider startJob (in_countdown @ [EPause ''acct'']) init) ''acct''
     = Some Paused
   \<and> countdown_of (exec BulkJobProvider startJob (in_countdown @ [EPause ''acct'']) init)
       ''acct'' = Some 3
   \<and> status_of (exec BulkJobProvider startJob
                  (in_countdown @ [EPause ''acct'', EResume ''acct'']) init) ''acct''
     = Some Processing
   \<and> countdown_of (exec BulkJobProvider startJob
                  (in_countdown @ [EPause ''acct'', EResume ''acct'']) init) ''acct'' = Some 3
   \<and> status_of (exec BulkJobProvider startJob (in_countdown @ [EStop ''acct'']) init) ''acct''
     = Some Stopped
   \<and> countdown_of (exec BulkJobProvider startJob (in_countdown @ [EStop ''acct'']) init)
       ''acct'' = Some 3
   \<and> status_of (exec BulkJobProvider startJob restart_in_call init) ''acct'' = Some Completed
   \<and> countdown_of (exec BulkJobProvider startJob restart_in_call init) ''acct'' = Some 3
   \<and> status_of (exec BulkJobProvider startJob countdown_written init) ''acct'' = Some Idle
   \<and> countdown_of (exec BulkJobProvider startJob countdown_written init) ''acct'' = Some 5"
  by (simp add: in_countdown_def restart_in_call_def countdown_written_def countdown_of_def
      status_of_def eval_defs)

text \<open>
  C8, amended. Let \<^verbatim>\<open>startJob\<close> never be called for an account while an earlier run-loop
  of that account is alive, and let \<^verbatim>\<open>updateJobData\<close> be called with input fields only.
  Then in every reachable state the countdown of a job is nonzero exactly when the
  run-loop of its account is inside its delay phase, sleeping a second or polling the
  pause flag; whenever the status is idle or completed the countdown is 0; and the
  status shown with a nonzero countdown is waiting, as long as no pause, resume or stop
  command for the account has been issued since a state in which this was so (in
  particular since a state with countdown 0).
\<close>

theorem countdown_zero_outside_delay:
  assumes "valid_trace BulkJobProvider startJob (evs @ evs') init"
    and "jobs (exec BulkJobProvider startJob (evs @ evs') init) a = Some j"
  shows "(countdown j \<noteq> 0 \<longleftrightarrow>
            (\<exists>r \<in> set (runs (exec BulkJobProvider startJob (evs @ evs') init)).
                acc r = a \<and> (pc r = CountdownSleep \<or> pc r = CountdownPauseWait)))
     \<and> (status j = Idle \<or> status j = Completed \<longrightarrow> countdown j = 0)
     \<and> (waiting_ok (exec BulkJobProvider startJob evs init) a \<and> calm a evs'
          \<longrightarrow> (countdown j \<noteq> 0 \<longrightarrow> status j = Waiting))"
proof -
  let ?w = "exec BulkJobProvider startJob (evs @ evs') init"
  let ?v = "exec BulkJobProvider startJob evs init"
  let ?D = "\<exists>r \<in> set (runs ?w). acc r = a \<and> (pc r = CountdownSleep \<or> pc r = CountdownPauseWait)"
  have inv: "acct_inv ?w a"
    by (rule bulk_reachable_inv [OF assms(1)])
  have v: "valid_trace BulkJobProvider startJob evs init"
    "valid_trace BulkJobProvider startJob evs' ?v"
    using assms(1) by (simp_all add: valid_trace_append)
  have sv: "sys_inv ?v"
    using sys_inv_exec [OF bulk_default_ok bulk_start_like init_inv v(1)] .
  have live: "r \<in> set (live_runs ?w a)"
    if "r \<in> set (runs ?w)" "acc r = a" "pc r = CountdownSleep \<or> pc r = CountdownPauseWait" for r
    using that by (auto simp: live_runs_def live_of_def)
  from inv have "(live_runs ?w a = [] \<and> job_ok j \<and> countdown j = 0)
      \<or> (\<exists>r. live_runs ?w a = [r] \<and> job_ok j \<and> run_fits j r)"
    unfolding acct_inv_def using assms(2) by simp
  then have in_delay: "(countdown j \<noteq> 0 \<longleftrightarrow> ?D)
     \<and> (status j = Idle \<or> status j = Completed \<longrightarrow> countdown j = 0)"
  proof (elim disjE conjE exE)
    assume e: "live_runs ?w a = []" and c: "countdown j = 0"
    have "\<not> ?D"
    proof
      assume ?D
      then obtain r where "r \<in> set (live_runs ?w a)"
        using live by blast
      then show False
        using e by simp
    qed
    then show ?thesis
      using c by simp
  next
    fix r
    assume l: "live_runs ?w a = [r]" and f: "run_fits j r"
    have mem: "r \<in> set (filter (live_of a) (runs ?w))"
      using l by (simp add: live_runs_def)
    have r: "r \<in> set (runs ?w)" "acc r = a"
      using mem by (simp_all add: live_of_def)
    have fwd: "countdown j \<noteq> 0 \<Longrightarrow> ?D"
    proof -
      assume "countdown j \<noteq> 0"
      then have "pc r = CountdownSleep \<or> pc r = CountdownPauseWait"
        using f by (simp add: run_fits_def)
      then show ?D
        using r by blast
    qed
    have bwd: "?D \<Longrightarrow> countdown j \<noteq> 0"
    proof -
      assume ?D
      then obtain r' where r': "r' \<in> set (runs ?w)" "acc r' = a"
          "pc r' = CountdownSleep \<or> pc r' = CountdownPauseWait"
        by blast
      have "r' \<in> set (live_runs ?w a)"
        by (rule live [OF r'])
      then have "r' = r"
        using l by simp
      then have "countdown j = remaining r \<and> 0 < remaining r"
        using f r'(3) by (auto simp: run_fits_def)
      then show "countdown j \<noteq> 0"
        by simp
    qed
    have st: "status j \<noteq> Idle" "status j \<noteq> Completed"
      using f by (simp_all add: run_fits_def)
    show ?thesis
      using fwd bwd st by blast
  qed
  have wait: "waiting_ok ?v a \<and> calm a evs' \<longrightarrow> (countdown j \<noteq> 0 \<longrightarrow> status j = Waiting)"
  proof (intro impI, elim conjE)
    assume a: "waiting_ok ?v a" "calm a evs'" and c: "countdown j \<noteq> 0"
    have "waiting_ok ?w a"
      using waiting_ok_exec [OF bulk_default_ok bulk_start_like sv v(2) a(2) a(1)]
      by (simp add: exec_append)
    then show "status j = Waiting"
      using assms(2) c by (simp add: waiting_ok_def)
  qed
  show ?thesis
    using in_delay wait by blast
qed

lemma in_countdown_valid: "valid_trace BulkJobProvider startJob in_countdown init"
  by (simp add: in_countdown_def trace_defs eval_defs)

lemma before_countdown_waiting_ok:
  "waiting_ok (exec BulkJobProvider startJob (take 2 in_countdown) init) ''acct''"
  by (simp add: waiting_ok_def in_countdown_def eval_defs)

lemma in_countdown_job:
  "countdown_of (exec BulkJobProvider startJob in_countdown init) ''acct'' = Some 3"
  by (simp add: in_countdown_def countdown_of_def eval_defs)

text \<open>
  Once the first call has returned the loop is in its delay phase: the countdown is 3 and
  the status is waiting. A job that was only edited is idle with countdown 0.
\<close>

theorem countdown_zero_outside_delay_witness:
  "valid_trace BulkJobProvider startJob in_countdown init
   \<and> waiting_ok (exec BulkJobProvider startJob (take 2 in_countdown) init) ''acct''
   \<and> calm ''acct'' (drop 2 in_countdown)
   \<and> (\<exists>j. jobs (exec BulkJobProvider startJob in_countdown init) ''acct'' = Some j
          \<and> countdown j = 3 \<and> status j = Waiting)
   \<and> (\<exists>r \<in> set (runs (exec BulkJobProvider startJob in_countdown init)).
          acc r = ''acct'' \<and> (pc r = CountdownSleep \<or> pc r = CountdownPauseWait))
   \<and> valid_trace BulkJobProvider startJob (take 1 in_countdown) init
   \<and> status_of (exec BulkJobProvider startJob (take 1 in_countdown) init) ''acct'' = Some Idle
   \<and> countdown_of (exec BulkJobProvider startJob (take 1 in_countdown) init) ''acct'' = Some 0"
proof -
  obtain j where j: "jobs (exec BulkJobProvider startJob in_countdown init) ''acct'' = Some j"
      "countdown j = 3"
    using in_countdown_job by (auto simp: countdown_of_def)
  obtain j0 where j0: "jobs (exec BulkJobProvider startJob (take 1 in_countdown) init) ''acct''
       = Some j0" "status j0 = Idle"
    using only_edit_job(1) by (auto simp: status_of_def)
  have c: "calm ''acct'' (drop 2 in_countdown)"
    by (simp add: in_countdown_def)
  note T = countdown_zero_outside_delay [of "take 2 in_countdown" "drop 2 in_countdown"
      "''acct''" j, unfolded append_take_drop_id, OF in_countdown_valid j(1)]
  note U = countdown_zero_outside_delay [of "take 1 in_countdown" "[]" "''acct''" j0,
      unfolded append_Nil2, OF only_edit_valid j0(1)]
  have w: "status j = Waiting"
    using T before_countdown_waiting_ok c j(2) by simp
  have d: "\<exists>r \<in> set (runs (exec BulkJobProvider startJob in_countdown init)).
          acc r = ''acct'' \<and> (pc r = CountdownSleep \<or> pc r = CountdownPauseWait)"
    using T j(2) by simp
  have z: "countdown j0 = 0"
    using U j0(2) by simp
  have z': "countdown_of (exec BulkJobProvider startJob (take 1 in_countdown) init) ''acct'' = Some 0"
    using z j0(1) by (simp add: countdown_of_def)
  show ?thesis
    using in_countdown_valid before_countdown_waiting_ok c j w d only_edit_valid only_edit_job(1) z'
    by blast
qed

end
